theory Spec2Isabelle
  imports Main
begin

section \<open>Strings\<close>

text \<open>
  A JavaScript string is a sequence of UTF-16 code units. The model works on \<^typ>\<open>string\<close>,
  whose characters are the code units below 256 (Latin-1). The source mentions four
  characters above that range; they are given the otherwise unused C1 positions that
  Windows-1252 assigns to them: the right single quote U+2019 is \<open>0x92\<close>, the ellipsis
  U+2026 is \<open>0x85\<close>, the bullet U+2022 is \<open>0x95\<close> and the em dash U+2014 is \<open>0x97\<close>.
  Emoji in fixed labels are written as their chat shortcodes (\<open>:hourglass:\<close>).
\<close>

definition RSQUO :: char where "RSQUO = CHR 0x92"
definition ELLIPSIS :: char where "ELLIPSIS = CHR 0x85"
definition BULLET :: char where "BULLET = CHR 0x95"
definition EMDASH :: char where "EMDASH = CHR 0x97"

definition ascii_upper :: string where "ascii_upper = ''ABCDEFGHIJKLMNOPQRSTUVWXYZ''"
definition ascii_lower :: string where "ascii_lower = ''abcdefghijklmnopqrstuvwxyz''"
definition digits :: string where "digits = ''0123456789''"

definition latin1_upper :: string where
  "latin1_upper =
     [CHR 0xC0, CHR 0xC1, CHR 0xC2, CHR 0xC3, CHR 0xC4, CHR 0xC5, CHR 0xC6, CHR 0xC7,
      CHR 0xC8, CHR 0xC9, CHR 0xCA, CHR 0xCB, CHR 0xCC, CHR 0xCD, CHR 0xCE, CHR 0xCF,
      CHR 0xD0, CHR 0xD1, CHR 0xD2, CHR 0xD3, CHR 0xD4, CHR 0xD5, CHR 0xD6,
      CHR 0xD8, CHR 0xD9, CHR 0xDA, CHR 0xDB, CHR 0xDC, CHR 0xDD, CHR 0xDE]"

definition latin1_lower :: string where
  "latin1_lower =
     [CHR 0xE0, CHR 0xE1, CHR 0xE2, CHR 0xE3, CHR 0xE4, CHR 0xE5, CHR 0xE6, CHR 0xE7,
      CHR 0xE8, CHR 0xE9, CHR 0xEA, CHR 0xEB, CHR 0xEC, CHR 0xED, CHR 0xEE, CHR 0xEF,
      CHR 0xF0, CHR 0xF1, CHR 0xF2, CHR 0xF3, CHR 0xF4, CHR 0xF5, CHR 0xF6,
      CHR 0xF8, CHR 0xF9, CHR 0xFA, CHR 0xFB, CHR 0xFC, CHR 0xFD, CHR 0xFE]"

definition translate :: "string \<Rightarrow> string \<Rightarrow> char \<Rightarrow> char" where
  "translate from to c = (case map_of (zip from to) c of Some d \<Rightarrow> d | None \<Rightarrow> c)"

text \<open>\<open>String.prototype.toLowerCase\<close> and \<open>toUpperCase\<close> on Latin-1 code units.\<close>

definition toLowerCase :: "string \<Rightarrow> string" where
  "toLowerCase s = map (translate (ascii_upper @ latin1_upper) (ascii_lower @ latin1_lower)) s"

definition upper_ascii :: "char \<Rightarrow> char" where
  "upper_ascii c = translate ascii_lower ascii_upper c"

definition lower_ascii :: "char \<Rightarrow> char" where
  "lower_ascii c = translate ascii_upper ascii_lower c"

text \<open>
  The regular-expression class \<open>\s\<close> and the characters \<open>trim\<close> removes: tab, line feed,
  vertical tab, form feed, carriage return, space and the no-break space.
\<close>

definition is_space :: "char \<Rightarrow> bool" where
  "is_space c = (c \<in> set [CHR 0x09, CHR 0x0A, CHR 0x0B, CHR 0x0C, CHR 0x0D, CHR 0x20, CHR 0xA0])"

definition is_digit :: "char \<Rightarrow> bool" where
  "is_digit c = (c \<in> set digits)"

definition is_alpha :: "char \<Rightarrow> bool" where
  "is_alpha c = (c \<in> set (ascii_upper @ ascii_lower))"

text \<open>The class \<open>\w\<close>, which decides where \<open>\b\<close> holds.\<close>

definition is_word :: "char \<Rightarrow> bool" where
  "is_word c = (is_alpha c \<or> is_digit c \<or> c = CHR ''_'')"

text \<open>The dot matches every character but the line terminators.\<close>

definition is_dot :: "char \<Rightarrow> bool" where
  "is_dot c = (c \<notin> set [CHR 0x0A, CHR 0x0D])"

definition trim :: "string \<Rightarrow> string" where
  "trim s = rev (dropWhile is_space (rev (dropWhile is_space s)))"

text \<open>\<open>s.replace(/\s+/g, ' ')\<close>: every maximal run of white space becomes one space.\<close>

fun collapse_ws :: "string \<Rightarrow> string" where
  "collapse_ws [] = []"
| "collapse_ws [c] = [if is_space c then CHR '' '' else c]"
| "collapse_ws (c # d # cs) =
     (if is_space c \<and> is_space d then collapse_ws (d # cs)
      else (if is_space c then CHR '' '' else c) # collapse_ws (d # cs))"

section \<open>Regular expressions\<close>

text \<open>
  The patterns of the source are kept as syntax trees and run by a backtracking matcher
  that lists the ways a pattern can match at a position in the order in which the
  JavaScript matcher tries them: the left alternative first, a greedy star the longer
  match first, a lazy star the shorter first. The head of the list is the match.
\<close>

datatype rx =
    Chr "char \<Rightarrow> bool"
  | Eps
  | Seq rx rx
  | Alt rx rx
  | Star rx
  | LazyStar rx
  | Grp nat rx
  | Bol
  | Eol
  | WordB

record mstate =
  prev :: string
  rest :: string
  groups :: "(nat \<times> string) list"

text \<open>An iteration of a star that consumes nothing is rejected, as in ECMAScript.\<close>

fun star :: "nat \<Rightarrow> (mstate \<Rightarrow> mstate list) \<Rightarrow> mstate \<Rightarrow> mstate list" where
  "star 0 f st = [st]"
| "star (Suc n) f st =
     concat (map (star n f) (filter (\<lambda>st'. rest st' \<noteq> rest st) (f st))) @ [st]"

fun lazy_star :: "nat \<Rightarrow> (mstate \<Rightarrow> mstate list) \<Rightarrow> mstate \<Rightarrow> mstate list" where
  "lazy_star 0 f st = [st]"
| "lazy_star (Suc n) f st =
     st # concat (map (lazy_star n f) (filter (\<lambda>st'. rest st' \<noteq> rest st) (f st)))"

definition at_word_boundary :: "mstate \<Rightarrow> bool" where
  "at_word_boundary st =
     ((case prev st of [] \<Rightarrow> False | c # _ \<Rightarrow> is_word c) \<noteq>
      (case rest st of [] \<Rightarrow> False | c # _ \<Rightarrow> is_word c))"

primrec ms :: "rx \<Rightarrow> mstate \<Rightarrow> mstate list" where
  "ms (Chr p) st =
     (case rest st of [] \<Rightarrow> []
      | c # cs \<Rightarrow> if p c then [st\<lparr>prev := c # prev st, rest := cs\<rparr>] else [])"
| "ms Eps st = [st]"
| "ms (Seq a b) st = concat (map (ms b) (ms a st))"
| "ms (Alt a b) st = ms a st @ ms b st"
| "ms (Star a) st = star (length (rest st)) (ms a) st"
| "ms (LazyStar a) st = lazy_star (length (rest st)) (ms a) st"
| "ms (Grp n a) st =
     map (\<lambda>st'. st'\<lparr>groups := (n, take (length (rest st) - length (rest st')) (rest st)) # groups st'\<rparr>)
       (ms a st)"
| "ms Bol st = (if prev st = [] then [st] else [])"
| "ms Eol st = (if rest st = [] then [st] else [])"
| "ms WordB st = (if at_word_boundary st then [st] else [])"

text \<open>
  The result of \<open>s.match(r)\<close> for a pattern without the \<open>g\<close> flag: the matched text
  \<open>m[0]\<close>, the text to its left, the text to its right, and the capture groups.
\<close>

record rmatch =
  m_pre :: string
  m_text :: string
  m_post :: string
  m_groups :: "(nat \<times> string) list"

fun search_from :: "rx \<Rightarrow> string \<Rightarrow> string \<Rightarrow> rmatch option" where
  "search_from r pre s =
     (case ms r \<lparr>prev = pre, rest = s, groups = []\<rparr> of
        st # _ \<Rightarrow>
          Some \<lparr>m_pre = rev pre, m_text = take (length s - length (rest st)) s,
                m_post = rest st, m_groups = groups st\<rparr>
      | [] \<Rightarrow> (case s of [] \<Rightarrow> None | c # cs \<Rightarrow> search_from r (c # pre) cs))"

definition rx_match :: "rx \<Rightarrow> string \<Rightarrow> rmatch option" where
  "rx_match r s = search_from r [] s"

definition rx_test :: "rx \<Rightarrow> string \<Rightarrow> bool" where
  "rx_test r s = (rx_match r s \<noteq> None)"

definition group :: "nat \<Rightarrow> rmatch \<Rightarrow> string option" where
  "group n m = map_of (m_groups m) n"

subsection \<open>Pattern syntax\<close>

definition Plus :: "rx \<Rightarrow> rx" where "Plus a = Seq a (Star a)"
definition LazyPlus :: "rx \<Rightarrow> rx" where "LazyPlus a = Seq a (LazyStar a)"
definition Opt :: "rx \<Rightarrow> rx" where "Opt a = Alt a Eps"

text \<open>A literal, and a literal under the \<open>i\<close> flag (all literals of the source are ASCII).\<close>

fun Lit :: "string \<Rightarrow> rx" where
  "Lit [] = Eps"
| "Lit (c # cs) = Seq (Chr (\<lambda>x. x = c)) (Lit cs)"

fun LitI :: "string \<Rightarrow> rx" where
  "LitI [] = Eps"
| "LitI (c # cs) = Seq (Chr (\<lambda>x. lower_ascii x = lower_ascii c)) (LitI cs)"

fun Alts :: "rx list \<Rightarrow> rx" where
  "Alts [] = Eps"
| "Alts [a] = a"
| "Alts (a # as) = Alt a (Alts as)"

fun Seqs :: "rx list \<Rightarrow> rx" where
  "Seqs [] = Eps"
| "Seqs [a] = a"
| "Seqs (a # as) = Seq a (Seqs as)"

text \<open>\<open>a{n}\<close> and \<open>a{n,m}\<close> with \<open>m = n + k\<close>.\<close>

fun Times :: "nat \<Rightarrow> rx \<Rightarrow> rx" where
  "Times 0 a = Eps"
| "Times (Suc n) a = Seq a (Times n a)"

fun UpTo :: "nat \<Rightarrow> rx \<Rightarrow> rx" where
  "UpTo 0 a = Eps"
| "UpTo (Suc k) a = Opt (Seq a (UpTo k a))"

definition Rep :: "nat \<Rightarrow> nat \<Rightarrow> rx \<Rightarrow> rx" where
  "Rep n k a = Seq (Times n a) (UpTo k a)"

section \<open>Phase classifier\<close>

datatype phase = PREPARING | HEADING | ALMOST_HERE | DELIVERED

text \<open>
  \<^verbatim>\<open>/received|preparing|confirm(ed|ing)?|waiting for the store|getting (the )?order ready/\<close>
\<close>

definition PREPARING_RX :: rx where
  "PREPARING_RX =
     Alts [Lit ''received'', Lit ''preparing'',
           Seq (Lit ''confirm'') (Opt (Grp 1 (Alt (Lit ''ed'') (Lit ''ing'')))),
           Lit ''waiting for the store'',
           Seqs [Lit ''getting '', Opt (Grp 2 (Lit ''the '')), Lit ''order ready'']]"

text \<open>\<^verbatim>\<open>/(heading .* way|on the way|head(?:ing)? your way)/i\<close>\<close>

definition HEADING_RX :: rx where
  "HEADING_RX =
     Grp 1 (Alts [Seqs [LitI ''heading '', Star (Chr is_dot), LitI '' way''],
                  LitI ''on the way'',
                  Seqs [LitI ''head'', Opt (LitI ''ing''), LitI '' your way'']])"

text \<open>\<^verbatim>\<open>/(almost there|nearby|here|arriving)/i\<close>\<close>

definition ALMOST_HERE_RX :: rx where
  "ALMOST_HERE_RX =
     Grp 1 (Alts [LitI ''almost there'', LitI ''nearby'', LitI ''here'', LitI ''arriving''])"

text \<open>\<^verbatim>\<open>/(delivered|order arrived)/i\<close>\<close>

definition DELIVERED_RX :: rx where
  "DELIVERED_RX = Grp 1 (Alts [LitI ''delivered'', LitI ''order arrived''])"

text \<open>
  \<open>classifyPhase(statusLineRaw = '')\<close>: an absent (or empty) argument is read as the
  empty string.
\<close>

definition classifyPhase :: "string option \<Rightarrow> phase option" where
  "classifyPhase statusLineRaw =
     (let s = toLowerCase (case statusLineRaw of None \<Rightarrow> [] | Some t \<Rightarrow> t) in
      if rx_test PREPARING_RX s then Some PREPARING
      else if rx_test HEADING_RX s then Some HEADING
      else if rx_test ALMOST_HERE_RX s then Some ALMOST_HERE
      else if rx_test DELIVERED_RX s then Some DELIVERED
      else None)"

text \<open>
  The rule list as the specification words it: the rules are tried in order on the
  lower-cased headline and the first one whose pattern matches decides.
\<close>

definition phase_rules :: "(rx \<times> phase) list" where
  "phase_rules =
     [(PREPARING_RX, PREPARING), (HEADING_RX, HEADING),
      (ALMOST_HERE_RX, ALMOST_HERE), (DELIVERED_RX, DELIVERED)]"

definition first_match :: "(rx \<times> phase) list \<Rightarrow> string \<Rightarrow> phase option" where
  "first_match rules s = map_option snd (find (\<lambda>rule. rx_test (fst rule) s) rules)"

section \<open>Sanitizer\<close>

text \<open>JavaScript truthiness of a string that may be absent, and \<open>a || b\<close> on such values.\<close>

definition truthy :: "string option \<Rightarrow> bool" where
  "truthy v = (case v of None \<Rightarrow> False | Some s \<Rightarrow> s \<noteq> [])"

definition or_else :: "string option \<Rightarrow> string option \<Rightarrow> string option" where
  "or_else a b = (if truthy a then a else b)"

text \<open>An absent value inside a template literal prints as \<open>null\<close>.\<close>

definition template :: "string option \<Rightarrow> string" where
  "template v = (case v of None \<Rightarrow> ''null'' | Some s \<Rightarrow> s)"

text \<open>\<open>s.replace(r, rep)\<close> for a pattern without the \<open>g\<close> flag.\<close>

definition rx_replace :: "rx \<Rightarrow> string \<Rightarrow> string \<Rightarrow> string" where
  "rx_replace r rep s =
     (case rx_match r s of None \<Rightarrow> s | Some m \<Rightarrow> m_pre m @ rep @ m_post m)"

text \<open>\<^verbatim>\<open>/This website uses third party advertising cookies[\s\S]*$/i\<close>\<close>

definition COOKIE_RX :: rx where
  "COOKIE_RX =
     Seqs [LitI ''This website uses third party advertising cookies'',
           Star (Chr (\<lambda>c. True)), Eol]"

text \<open>\<open>s.slice(0, max - 1)\<close>; a negative end counts from the end of the string.\<close>

definition slice_to_max :: "nat \<Rightarrow> string \<Rightarrow> string" where
  "slice_to_max maxlen s = (if maxlen = 0 then butlast s else take (maxlen - 1) s)"

definition sanitize :: "string option \<Rightarrow> nat \<Rightarrow> string option" where
  "sanitize val maxlen =
     (case val of
        None \<Rightarrow> None
      | Some v \<Rightarrow>
          if v = [] then None
          else
            let s = trim (rx_replace COOKIE_RX [] (collapse_ws v)) in
            if s = [] then None
            else if length s > maxlen then Some (slice_to_max maxlen s @ [ELLIPSIS])
            else Some s)"

definition sanitizeName :: "string option \<Rightarrow> string option" where
  "sanitizeName v = sanitize v 256"

text \<open>
  \<open>sanitizeValue\<close> has one parameter: the limits 1000 and 110 that two call sites pass
  as a second argument are not read, and every value is cut at 1024.
\<close>

definition sanitizeValue :: "string option \<Rightarrow> string option" where
  "sanitizeValue v = sanitize v 1024"

section \<open>Snapshots and published payloads\<close>

text \<open>The object \<open>scrapeFromHTML\<close> returns.\<close>

record snapshot =
  statusText :: string
  statusLine :: "string option"
  etaLine :: "string option"
  store :: "string option"
  name :: "string option"
  address :: "string option"
  unit :: "string option"
  delivery_type :: "string option"
  delivery_note_typed :: "string option"
  cart :: "string list"
  delivered :: bool

text \<open>The settings read from the process environment that reach a payload.\<close>

record config =
  BRAND :: string
  VOUCH_CHANNEL_ID :: string
  STORE_EMOJI :: string
  THEME :: string

text \<open>
  What the builders of the chat library hold when the source is done with them: an
  embed with the properties in the order in which the source sets them, and a row with
  one link button. The builders are taken to accept what they are given.
\<close>

record embed_field =
  field_name :: string
  field_value :: string
  field_inline :: bool

record embed =
  embed_color :: int
  embed_title :: string
  embed_url :: "string option"
  embed_fields :: "embed_field list"
  embed_footer :: string
  embed_timestamp :: string
  embed_thumbnail :: "string option"

record link_button =
  button_url :: string
  button_label :: string

record payload =
  content :: string
  embeds :: "embed list"
  components :: "link_button list"

definition join :: "string \<Rightarrow> string list \<Rightarrow> string" where
  "join sep xs = concat (case xs of [] \<Rightarrow> [] | y # ys \<Rightarrow> y # map (\<lambda>x. sep @ x) ys)"

definition push_if :: "string \<Rightarrow> string option \<Rightarrow> embed_field list" where
  "push_if label v =
     (case v of None \<Rightarrow> []
      | Some s \<Rightarrow> [\<lparr>field_name = label, field_value = s, field_inline = True\<rparr>])"

definition status_field :: "snapshot \<Rightarrow> embed_field" where
  "status_field data =
     (let top = sanitizeValue
                  (or_else (or_else (statusLine data) (Some (statusText data)))
                     (Some ''Unknown status''));
          eta = (if truthy (etaLine data)
                 then [CHR 0x0A] @ ''*'' @ template (sanitizeValue (etaLine data)) @ ''*''
                 else [])
      in \<lparr>field_name = '':hourglass: Order Status'',
          field_value = trim (template top @ eta), field_inline = False\<rparr>)"

definition address_field :: "snapshot \<Rightarrow> embed_field list" where
  "address_field data =
     (if truthy (address data) then
        (let addrBlock =
               (if truthy (unit data)
                then Some (template (address data) @ [CHR 0x0A] @ template (unit data))
                else address data)
         in case sanitizeValue addrBlock of
              None \<Rightarrow> []
            | Some addrVal \<Rightarrow>
                [\<lparr>field_name = '':round_pushpin: Delivery Address'',
                  field_value = ''```'' @ addrVal @ ''```'', field_inline = False\<rparr>])
      else [])"

definition cart_field :: "config \<Rightarrow> snapshot \<Rightarrow> embed_field list" where
  "cart_field cfg data =
     (if cart data \<noteq> [] then
        (let items =
               join [CHR 0x0A]
                 (map (\<lambda>x. [BULLET] @ '' '' @ x)
                    (concat (map (\<lambda>t. case sanitizeValue (Some t) of None \<Rightarrow> [] | Some x \<Rightarrow> [x])
                       (cart data))))
         in if items \<noteq> [] then
              [\<lparr>field_name = (if THEME cfg = ''classic'' then '':shopping_cart: Order Summary''
                               else '':shopping_cart: Cart''),
                field_value = items, field_inline = False\<rparr>]
            else [])
      else [])"

text \<open>
  \<open>buildActiveEmbed(data, link, { serverIconURL })\<close>. The last argument \<open>now\<close> is the text
  of \<open>new Date()\<close>, read when the embed is built, which \<open>setTimestamp\<close> stores.
\<close>

definition buildActiveEmbed ::
  "config \<Rightarrow> snapshot \<Rightarrow> string option \<Rightarrow> string option \<Rightarrow> string \<Rightarrow> embed" where
  "buildActiveEmbed cfg data link serverIconURL now =
     \<lparr>embed_color = 0x2ecc71,
      embed_title = '':white_check_mark: Tracking Information'',
      embed_url = or_else link None,
      embed_fields =
        [status_field data]
        @ push_if (STORE_EMOJI cfg @ '' Store'') (sanitizeValue (store data))
        @ push_if '':bust_in_silhouette: Name'' (sanitizeValue (name data))
        @ push_if '':information_source: Delivery Type'' (sanitizeValue (delivery_type data))
        @ push_if '':pencil: Delivery Note'' (sanitizeValue (delivery_note_typed data))
        @ address_field data
        @ cart_field cfg data,
      embed_footer = ''Updated by '' @ BRAND cfg,
      embed_timestamp = now,
      embed_thumbnail = or_else serverIconURL None\<rparr>"

definition buildDeliveredEmbed ::
  "config \<Rightarrow> snapshot \<Rightarrow> string option \<Rightarrow> string option \<Rightarrow> string \<Rightarrow> embed" where
  "buildDeliveredEmbed cfg data link serverIconURL now =
     (let thanks = ''Thanks for ordering with **'' @ BRAND cfg
                   @ ''**! Hope you enjoyed your food and the experience.'';
          vouch = ''If you'' @ [RSQUO] @ ''re satisfied with your order, drop a vouch in <#''
                  @ VOUCH_CHANNEL_ID cfg @ ''> for points towards a reward!''
      in \<lparr>embed_color = 0x22aa66,
          embed_title = '':white_check_mark: Order Arrived!'',
          embed_url = or_else link None,
          embed_fields =
            [\<lparr>field_name = '':package: Order Status'', field_value = ''Enjoy your order!'',
              field_inline = False\<rparr>,
             \<lparr>field_name = '':pray: Thank You!'', field_value = thanks, field_inline = False\<rparr>,
             \<lparr>field_name = '':pencil: Leave a Vouch'', field_value = vouch, field_inline = False\<rparr>],
          embed_footer = ''Updated by '' @ BRAND cfg,
          embed_timestamp = now,
          embed_thumbnail = or_else serverIconURL None\<rparr>)"

definition linkRow :: "string option \<Rightarrow> bool \<Rightarrow> link_button" where
  "linkRow link is_delivered =
     \<lparr>button_url = (case or_else link None of None \<Rightarrow> ''https://www.ubereats.com/'' | Some l \<Rightarrow> l),
      button_label = (if is_delivered then ''Order Link'' else ''Track Order'')\<rparr>"

section \<open>Fingerprint\<close>

text \<open>
  \<open>hashPayload\<close> is \<open>JSON.stringify\<close>, which serialises what the builders' \<open>toJSON\<close>
  return: the properties set, in the order in which they were set.
\<close>

datatype json =
    JStr string
  | JNum int
  | JBool bool
  | JArr "json list"
  | JObj "(string \<times> json) list"

text \<open>
  A code unit below \<open>0x20\<close> has its three high bits clear; those without a short escape
  are written \<open>\u00XX\<close> with the two hexadecimal digits of the code.
\<close>

definition is_control :: "char \<Rightarrow> bool" where
  "is_control c = (case c of Char b0 b1 b2 b3 b4 b5 b6 b7 \<Rightarrow> \<not> (b5 \<or> b6 \<or> b7))"

definition hex_digit :: "bool \<Rightarrow> bool \<Rightarrow> bool \<Rightarrow> bool \<Rightarrow> char" where
  "hex_digit b0 b1 b2 b3 =
     ''0123456789abcdef'' ! (of_bool b0 + 2 * of_bool b1 + 4 * of_bool b2 + 8 * of_bool b3)"

definition hex2 :: "char \<Rightarrow> string" where
  "hex2 c =
     (case c of Char b0 b1 b2 b3 b4 b5 b6 b7 \<Rightarrow> [hex_digit b4 b5 b6 b7, hex_digit b0 b1 b2 b3])"

definition json_escape :: "char \<Rightarrow> string" where
  "json_escape c =
     (if c = CHR 0x22 then [CHR 0x5C, CHR 0x22]
      else if c = CHR 0x5C then [CHR 0x5C, CHR 0x5C]
      else if is_control c then
        (if c = CHR 0x08 then [CHR 0x5C, CHR ''b'']
         else if c = CHR 0x0C then [CHR 0x5C, CHR ''f'']
         else if c = CHR 0x0A then [CHR 0x5C, CHR ''n'']
         else if c = CHR 0x0D then [CHR 0x5C, CHR ''r'']
         else if c = CHR 0x09 then [CHR 0x5C, CHR ''t'']
         else [CHR 0x5C] @ ''u00'' @ hex2 c)
      else [c])"

definition json_quote :: "string \<Rightarrow> string" where
  "json_quote s = [CHR 0x22] @ concat (map json_escape s) @ [CHR 0x22]"

text \<open>An integer in decimal.\<close>

function show_int :: "int \<Rightarrow> string" where
  "show_int n =
     (if n < 0 then CHR ''-'' # show_int (- n)
      else if n < 10 then [digits ! nat n]
      else show_int (n div 10) @ [digits ! nat (n mod 10)])"
  by pat_completeness auto
termination
  by (relation "measure (\<lambda>n. if n < 0 then nat (2 - n) else nat n)") auto

declare show_int.simps [simp del]

fun stringify :: "json \<Rightarrow> string"
  and stringify_elements :: "json list \<Rightarrow> string list"
  and stringify_members :: "(string \<times> json) list \<Rightarrow> string list" where
  "stringify (JStr s) = json_quote s"
| "stringify (JNum n) = show_int n"
| "stringify (JBool b) = (if b then ''true'' else ''false'')"
| "stringify (JArr xs) = ''['' @ join '','' (stringify_elements xs) @ '']''"
| "stringify (JObj kvs) = ''{'' @ join '','' (stringify_members kvs) @ ''}''"
| "stringify_elements [] = []"
| "stringify_elements (x # xs) = stringify x # stringify_elements xs"
| "stringify_members [] = []"
| "stringify_members (kv # kvs) =
     (json_quote (fst kv) @ '':'' @ stringify (snd kv)) # stringify_members kvs"

definition opt_member :: "string \<Rightarrow> json option \<Rightarrow> (string \<times> json) list" where
  "opt_member k v = (case v of None \<Rightarrow> [] | Some j \<Rightarrow> [(k, j)])"

definition field_toJSON :: "embed_field \<Rightarrow> json" where
  "field_toJSON f =
     JObj [(''name'', JStr (field_name f)), (''value'', JStr (field_value f)),
           (''inline'', JBool (field_inline f))]"

definition embed_toJSON :: "embed \<Rightarrow> json" where
  "embed_toJSON e =
     JObj ([(''color'', JNum (embed_color e)), (''title'', JStr (embed_title e))]
           @ opt_member ''url'' (map_option JStr (embed_url e))
           @ [(''fields'', JArr (map field_toJSON (embed_fields e))),
              (''footer'', JObj [(''text'', JStr (embed_footer e))]),
              (''timestamp'', JStr (embed_timestamp e))]
           @ opt_member ''thumbnail''
               (map_option (\<lambda>u. JObj [(''url'', JStr u)]) (embed_thumbnail e)))"

definition row_toJSON :: "link_button \<Rightarrow> json" where
  "row_toJSON b =
     JObj [(''type'', JNum 1),
           (''components'',
            JArr [JObj [(''type'', JNum 2), (''style'', JNum 5),
                        (''url'', JStr (button_url b)), (''label'', JStr (button_label b))]])]"

definition payload_toJSON :: "payload \<Rightarrow> json" where
  "payload_toJSON p =
     JObj [(''content'', JStr (content p)),
           (''embeds'', JArr (map embed_toJSON (embeds p))),
           (''components'', JArr (map row_toJSON (components p)))]"

definition hashPayload :: "payload \<Rightarrow> string" where
  "hashPayload obj = stringify (payload_toJSON obj)"

section \<open>Parsed markup\<close>

text \<open>
  \<open>cheerio.load(html)\<close> parses any string into a tree and does not raise. The model
  starts from that tree: element nodes with a lower-case tag name, their attributes and
  children, and the text nodes that \<open>text()\<close> reports. A document is the list of nodes
  under the root.
\<close>

datatype node = Text string | Element string "(string \<times> string) list" "node list"

type_synonym document = "node list"

fun text_of :: "node \<Rightarrow> string" where
  "text_of (Text s) = s"
| "text_of (Element t as cs) = concat (map text_of cs)"

text \<open>The elements of a tree in document order, the top one first.\<close>

fun subtree :: "node \<Rightarrow> node list" where
  "subtree (Text s) = []"
| "subtree (Element t as cs) = Element t as cs # concat (map subtree cs)"

definition children :: "node \<Rightarrow> node list" where
  "children n = (case n of Text s \<Rightarrow> [] | Element t as cs \<Rightarrow> cs)"

definition is_element :: "node \<Rightarrow> bool" where
  "is_element n = (case n of Text s \<Rightarrow> False | Element t as cs \<Rightarrow> True)"

definition tag :: "node \<Rightarrow> string" where
  "tag n = (case n of Text s \<Rightarrow> [] | Element t as cs \<Rightarrow> t)"

definition attr :: "string \<Rightarrow> node \<Rightarrow> string option" where
  "attr k n = (case n of Text s \<Rightarrow> None | Element t as cs \<Rightarrow> map_of as k)"

text \<open>\<open>$(selector)\<close> on the document and \<open>x.find(selector)\<close> below an element.\<close>

definition select :: "(node \<Rightarrow> bool) \<Rightarrow> document \<Rightarrow> node list" where
  "select sel doc = filter sel (concat (map subtree doc))"

definition find_in :: "(node \<Rightarrow> bool) \<Rightarrow> node \<Rightarrow> node list" where
  "find_in sel n = filter sel (concat (map subtree (children n)))"

definition testid :: "string \<Rightarrow> node \<Rightarrow> bool" where
  "testid v n = (attr ''data-testid'' n = Some v)"

definition testid_contains :: "string \<Rightarrow> node \<Rightarrow> bool" where
  "testid_contains v n =
     (case attr ''data-testid'' n of None \<Rightarrow> False | Some a \<Rightarrow> rx_test (Lit v) a)"

definition is_div :: "node \<Rightarrow> bool" where
  "is_div n = (tag n = ''div'')"

fun split_ws :: "string \<Rightarrow> string \<Rightarrow> string list" where
  "split_ws acc [] = (if acc = [] then [] else [rev acc])"
| "split_ws acc (c # cs) =
     (if is_space c then (if acc = [] then [] else [rev acc]) @ split_ws [] cs
      else split_ws (c # acc) cs)"

text \<open>The selector \<open>div.a.b.c\<close>: a \<open>div\<close> whose class list has every named class.\<close>

definition div_with_classes :: "string list \<Rightarrow> node \<Rightarrow> bool" where
  "div_with_classes cls n =
     (is_div n \<and>
      list_all (\<lambda>c. c \<in> set (split_ws [] (case attr ''class'' n of None \<Rightarrow> [] | Some a \<Rightarrow> a))) cls)"

text \<open>\<open>$(d).children().length === 0\<close>: no element among the children.\<close>

definition is_leaf :: "node \<Rightarrow> bool" where
  "is_leaf n = (filter is_element (children n) = [])"

text \<open>
  \<open>extractText($, el)\<close> on a selection: the text of its elements with white space
  collapsed and trimmed, absent when nothing is left.
\<close>

definition extractText :: "node list \<Rightarrow> string option" where
  "extractText els =
     (let t = trim (collapse_ws (concat (map text_of els)))
      in if t = [] then None else Some t)"

text \<open>\<open>x.first()\<close>: the selection of the first element, or the empty selection.\<close>

definition first :: "node list \<Rightarrow> node list" where
  "first els = take 1 els"

text \<open>The texts of a list of elements, those without text left out.\<close>

definition texts :: "node list \<Rightarrow> string list" where
  "texts els = concat (map (\<lambda>d. case extractText [d] of None \<Rightarrow> [] | Some t \<Rightarrow> [t]) els)"

section \<open>Extraction\<close>

subsection \<open>Patterns\<close>

definition ws :: rx where "ws = Chr is_space"
definition digit :: rx where "digit = Chr is_digit"

text \<open>\<^verbatim>\<open>/estimated/i\<close>\<close>

definition ESTIMATED_RX :: rx where "ESTIMATED_RX = LitI ''estimated''"

text \<open>\<^verbatim>\<open>/^From\s+/\<close> and \<^verbatim>\<open>/^From\s+/i\<close>\<close>

definition FROM_RX :: rx where "FROM_RX = Seqs [Bol, Lit ''From'', Plus ws]"
definition FROM_I_RX :: rx where "FROM_I_RX = Seqs [Bol, LitI ''From'', Plus ws]"

text \<open>
  \<^verbatim>\<open>/(?:preparing|picking up|heading)\s+(.+?)['\u2019]s\s+(?:order|way)/i\<close>,
  where \<open>\u2019\<close> stands for the right single quote that the source writes literally.
\<close>

definition NAME_RX :: rx where
  "NAME_RX =
     Seqs [Alts [LitI ''preparing'', LitI ''picking up'', LitI ''heading''], Plus ws,
           Grp 1 (LazyPlus (Chr is_dot)), Chr (\<lambda>c. c = CHR 0x27 \<or> c = RSQUO), LitI ''s'',
           Plus ws, Alts [LitI ''order'', LitI ''way'']]"

text \<open>
  \<^verbatim>\<open>/\d{2,6}[^,\n]+,\s*[A-Za-z .'-]+,\s*[A-Z]{2}\s+\d{5}(?:-\d{4})?(?:,\s*(US|USA))?/i\<close>
\<close>

definition ADDR_RX :: rx where
  "ADDR_RX =
     Seqs [Rep 2 4 digit, Plus (Chr (\<lambda>c. c \<noteq> CHR '','' \<and> c \<noteq> CHR 0x0A)), Lit '','', Star ws,
           Plus (Chr (\<lambda>c. is_alpha c \<or> c = CHR '' '' \<or> c = CHR ''.'' \<or> c = CHR 0x27 \<or> c = CHR ''-'')),
           Lit '','', Star ws, Times 2 (Chr is_alpha), Plus ws, Times 5 digit,
           Opt (Seqs [Lit ''-'', Times 4 digit]),
           Opt (Seqs [Lit '','', Star ws, Grp 1 (Alts [LitI ''US'', LitI ''USA''])])]"

definition UNIT_LABEL :: rx where
  "UNIT_LABEL =
     Grp 1 (Alts [LitI ''apt'', LitI ''apartment'', LitI ''suite'', LitI ''ste'',
                  LitI ''floor'', LitI ''fl'', LitI ''unit'', Lit ''#''])"

text \<open>
  \<^verbatim>\<open>/(apt|apartment|suite|ste|floor|fl|unit|#)\s*[:\-]?\s*([A-Za-z0-9\- .#]+)$/i\<close>
\<close>

definition UNIT_RX :: rx where
  "UNIT_RX =
     Seqs [UNIT_LABEL, Star ws, Opt (Chr (\<lambda>c. c = CHR '':'' \<or> c = CHR ''-'')), Star ws,
           Grp 2 (Plus (Chr (\<lambda>c. is_alpha c \<or> is_digit c \<or> c = CHR ''-'' \<or> c = CHR '' ''
                                  \<or> c = CHR ''.'' \<or> c = CHR ''#''))),
           Eol]"

text \<open>\<^verbatim>\<open>/^(apt|apartment|suite|ste|floor|fl|unit|#)\b/i\<close>\<close>

definition UNIT_HINT_RX :: rx where
  "UNIT_HINT_RX = Seqs [Bol, UNIT_LABEL, WordB]"

text \<open>
  \<^verbatim>\<open>/(leave (?:it )?at (?:my )?door|hand it to me|meet (?:at )?(?:the |my )?door|meet outside|deliver (?:to|at) (?:my )?door)/i\<close>
\<close>

definition TYPE_RX :: rx where
  "TYPE_RX =
     Grp 1 (Alts
       [Seqs [LitI ''leave '', Opt (LitI ''it ''), LitI ''at '', Opt (LitI ''my ''), LitI ''door''],
        LitI ''hand it to me'',
        Seqs [LitI ''meet '', Opt (LitI ''at ''), Opt (Alts [LitI ''the '', LitI ''my '']),
              LitI ''door''],
        LitI ''meet outside'',
        Seqs [LitI ''deliver '', Alts [LitI ''to'', LitI ''at''], LitI '' '', Opt (LitI ''my ''),
              LitI ''door'']])"

text \<open>\<^verbatim>\<open>/\b(standard|priority|rush|asap|express|economy|saver)\b/i\<close>\<close>

definition OPTION_RX :: rx where
  "OPTION_RX =
     Seqs [WordB,
           Grp 1 (Alts [LitI ''standard'', LitI ''priority'', LitI ''rush'', LitI ''asap'',
                        LitI ''express'', LitI ''economy'', LitI ''saver'']),
           WordB]"

text \<open>\<^verbatim>\<open>/^(address|delivery option|delivery options)$/i\<close>\<close>

definition LABEL_RX :: rx where
  "LABEL_RX =
     Seqs [Bol, Grp 1 (Alts [LitI ''address'', LitI ''delivery option'', LitI ''delivery options'']),
           Eol]"

text \<open>\<^verbatim>\<open>/\b(delivered|order arrived)\b/i\<close>\<close>

definition DELIVERED_FLAG_RX :: rx where
  "DELIVERED_FLAG_RX =
     Seqs [WordB, Grp 1 (Alts [LitI ''delivered'', LitI ''order arrived'']), WordB]"

text \<open>\<^verbatim>\<open>/Enjoy your order!/i\<close> and \<^verbatim>\<open>/Thanks for using Uber Eats\./i\<close>\<close>

definition ENJOY_RX :: rx where "ENJOY_RX = LitI ''Enjoy your order!''"
definition THANKS_RX :: rx where "THANKS_RX = LitI ''Thanks for using Uber Eats.''"

text \<open>\<^verbatim>\<open>/\s{2,}/g\<close> replaced by one space: runs of two or more white-space characters.\<close>

function collapse_runs :: "string \<Rightarrow> string" where
  "collapse_runs [] = []"
| "collapse_runs [c] = [c]"
| "collapse_runs (c # d # cs) =
     (if is_space c \<and> is_space d then CHR '' '' # collapse_runs (dropWhile is_space cs)
      else c # collapse_runs (d # cs))"
  by pat_completeness auto
termination
  by (relation "measure length") (auto simp: length_dropWhile_le le_imp_less_Suc less_Suc_eq_le le_SucI)

subsection \<open>The fields\<close>

text \<open>The first letter upper-cased, and the rest lower-cased where the source does so.\<close>

definition capitalize :: "string \<Rightarrow> string" where
  "capitalize s = (case s of [] \<Rightarrow> [] | c # cs \<Rightarrow> upper_ascii c # cs)"

definition capitalize_lower :: "string \<Rightarrow> string" where
  "capitalize_lower s = (case s of [] \<Rightarrow> [] | c # cs \<Rightarrow> upper_ascii c # toLowerCase cs)"

definition first_matching :: "rx \<Rightarrow> string list \<Rightarrow> string option" where
  "first_matching r ts = find (rx_test r) ts"

definition leaves_of :: "node \<Rightarrow> node list" where
  "leaves_of c = filter is_leaf (find_in is_div c)"

definition scrape_address :: "document \<Rightarrow> string option" where
  "scrape_address doc =
     (case first (select (testid ''delivery-text-container-0'') doc) of
        [] \<Rightarrow> None
      | c0 # _ \<Rightarrow>
          (case first_matching ADDR_RX (texts (leaves_of c0)) of
             Some hit \<Rightarrow> Some hit
           | None \<Rightarrow>
               (case extractText [c0] of
                  None \<Rightarrow> None
                | Some raw \<Rightarrow> map_option m_text (rx_match ADDR_RX raw))))"

definition scrape_unit :: "document \<Rightarrow> string option" where
  "scrape_unit doc =
     (case first (select (testid ''delivery-text-container-1'') doc) of
        [] \<Rightarrow> None
      | c1 # _ \<Rightarrow>
          (case (case extractText [c1] of None \<Rightarrow> None | Some raw \<Rightarrow> rx_match UNIT_RX raw) of
             Some m \<Rightarrow>
               Some (capitalize (template (group 1 m)) @ '': '' @ trim (template (group 2 m)))
           | None \<Rightarrow> first_matching UNIT_HINT_RX (texts (leaves_of c1))))"

text \<open>The backward scan for the typed note: the last leaf text that no pattern claims.\<close>

definition is_note :: "string \<Rightarrow> bool" where
  "is_note t =
     (\<not> rx_test LABEL_RX t \<and> \<not> rx_test TYPE_RX t \<and> \<not> rx_test OPTION_RX t
      \<and> \<not> rx_test ADDR_RX t \<and> \<not> rx_test UNIT_HINT_RX t)"

definition scrape_note :: "document \<Rightarrow> string option" where
  "scrape_note doc =
     (case first (select (testid ''delivery-text-container-1'') doc) of
        [] \<Rightarrow> None
      | c1 # _ \<Rightarrow> find is_note (rev (texts (leaves_of c1))))"

record type_scan =
  scan_type :: "string option"
  scan_opt :: "string option"

definition scan_step :: "type_scan \<Rightarrow> string \<Rightarrow> type_scan" where
  "scan_step acc t =
     (if \<not> truthy (scan_type acc) \<and> rx_test TYPE_RX t
        then acc\<lparr>scan_type := map_option m_text (rx_match TYPE_RX t)\<rparr>
      else if \<not> truthy (scan_opt acc) \<and> rx_test OPTION_RX t
        then (case rx_match OPTION_RX t of
                None \<Rightarrow> acc
              | Some m \<Rightarrow> acc\<lparr>scan_opt := Some (capitalize_lower (template (group 1 m)))\<rparr>)
      else acc)"

definition scanType :: "string \<Rightarrow> document \<Rightarrow> type_scan" where
  "scanType sel doc =
     (case first (select (testid sel) doc) of
        [] \<Rightarrow> \<lparr>scan_type = None, scan_opt = None\<rparr>
      | cont # _ \<Rightarrow>
          foldl scan_step \<lparr>scan_type = None, scan_opt = None\<rparr> (texts (find_in is_div cont)))"

definition present :: "string option list \<Rightarrow> string list" where
  "present vs = concat (map (\<lambda>v. case v of None \<Rightarrow> [] | Some s \<Rightarrow> if s = [] then [] else [s]) vs)"

definition scrape_delivery_type :: "string \<Rightarrow> document \<Rightarrow> string option" where
  "scrape_delivery_type textAll doc =
     (let t1 = scanType ''delivery-text-container-1'' doc;
          t2 = scanType ''delivery-text-container-2'' doc;
          typeLbl = or_else (scan_type t1) (scan_type t2);
          optLbl = or_else (scan_opt t1) (scan_opt t2);
          joined = join ('' '' @ [BULLET] @ '' '') (present [typeLbl, optLbl])
      in if joined \<noteq> [] then Some joined
         else map_option m_text (rx_match TYPE_RX textAll))"

definition cart_line :: "node \<Rightarrow> string option" where
  "cart_line item =
     (let nameDiv = first (find_in (div_with_classes [''bo'', ''bp'', ''bq'', ''br'']) item);
          name = extractText (if nameDiv \<noteq> [] then nameDiv else [item]);
          det = extractText
                  (first (find_in (\<lambda>n. div_with_classes [''bo'', ''cn'', ''bq'', ''dq'', ''g6''] n
                                      \<or> div_with_classes [''bo'', ''cn'', ''bq'', ''dq'', ''g7''] n)
                            item));
          line = (if truthy det then Some (template name @ '' '' @ [EMDASH] @ '' '' @ template det)
                  else name)
      in map_option (\<lambda>l. trim (collapse_runs l)) line)"

definition scrape_cart :: "document \<Rightarrow> string list" where
  "scrape_cart doc =
     present (map cart_line
       (select (\<lambda>n. testid ''order-summary-card-item'' n
                    \<or> testid_contains ''order-summary-card-item'' n) doc))"

text \<open>\<open>$.root().text().replace(/\s+/g, ' ').trim()\<close>\<close>

definition page_text :: "document \<Rightarrow> string" where
  "page_text doc = trim (collapse_ws (concat (map text_of doc)))"

text \<open>\<open>scrapeFromHTML\<close>, on the parsed markup.\<close>

definition scrapeFromHTML :: "document \<Rightarrow> snapshot" where
  "scrapeFromHTML doc =
     (let textAll = page_text doc;
          sticky = first (select (testid ''active-order-sticky-eta'') doc);
          lines = (case sticky of [] \<Rightarrow> [] | s # _ \<Rightarrow> texts (find_in is_div s));
          statusLine = (case lines of [] \<Rightarrow> None | l # _ \<Rightarrow> Some l);
          etaLine = (if sticky = [] then None else first_matching ESTIMATED_RX lines);
          statusText = (if sticky = [] then ''Unknown status''
                        else join '' '' (present [statusLine, etaLine]));
          fromNodes = texts (filter
                        (\<lambda>el. case extractText [el] of
                                 None \<Rightarrow> False
                               | Some t \<Rightarrow> rx_test FROM_RX t \<and> length t \<le> 80)
                        (select (\<lambda>n. tag n = ''div'' \<or> tag n = ''span'' \<or> tag n = ''p'') doc));
          store = (case fromNodes of [] \<Rightarrow> None
                   | f # _ \<Rightarrow> Some (trim (rx_replace FROM_I_RX [] f)));
          nm = rx_match NAME_RX
                 (template (or_else (or_else statusLine (Some statusText)) (Some [])));
          name = (case nm of None \<Rightarrow> None | Some m \<Rightarrow> group 1 m);
          delivered =
            (if rx_test DELIVERED_FLAG_RX statusText then True
             else
               (let enjoy = rx_test ENJOY_RX textAll;
                    thanks = rx_test THANKS_RX textAll;
                    backBtn = (0 < length (select (testid ''back-to-restaurants-primary-action'') doc))
                in (enjoy \<and> thanks) \<or> backBtn))
      in \<lparr>statusText = statusText,
          statusLine = statusLine,
          etaLine = etaLine,
          store = store,
          name = name,
          address = scrape_address doc,
          unit = scrape_unit doc,
          delivery_type = scrape_delivery_type textAll doc,
          delivery_note_typed = scrape_note doc,
          cart = take 12 (scrape_cart doc),
          delivered = delivered\<rparr>)"

section \<open>Job store\<close>

text \<open>
  A row of the table \<open>jobs\<close>. The columns \<open>id\<close>, \<open>created_at\<close> and \<open>updated_at\<close> are
  written but never read by the operations below and are left out. \<open>last_error_at\<close> holds
  the ISO text of an instant; the model keeps the instant, in milliseconds, which is
  what \<open>new Date(text).getTime()\<close> gives back.
\<close>

type_synonym msgid = string

record job_row =
  url :: string
  guild_id :: string
  channel_id :: string
  message_id :: msgid
  assignee_user_id :: "string option"
  requester_user_id :: "string option"
  static_name :: "string option"
  last_phase :: "phase option"
  last_hash :: "string option"
  last_error_at :: "int option"


definition DB_updateByMessageId ::
  "msgid \<Rightarrow> (job_row \<Rightarrow> job_row) \<Rightarrow> job_row list \<Rightarrow> job_row list" where
  "DB_updateByMessageId mid patch rows =
     map (\<lambda>r. if message_id r = mid then (patch r)\<lparr>message_id := mid\<rparr> else r) rows"

definition DB_deleteByMessageId :: "msgid \<Rightarrow> job_row list \<Rightarrow> job_row list" where
  "DB_deleteByMessageId mid rows = filter (\<lambda>r. message_id r \<noteq> mid) rows"

definition DB_getByMessageId :: "msgid \<Rightarrow> job_row list \<Rightarrow> job_row option" where
  "DB_getByMessageId mid rows = find (\<lambda>r. message_id r = mid) rows"

section \<open>Runtime\<close>

text \<open>The entry of the map \<open>states\<close>; the source's default \<open>{}\<close> has every property absent.\<close>

record runtime_state =
  lastPhase :: "phase option"
  staticName :: "string option"
  assigneeUserId :: "string option"

definition empty_state :: runtime_state where
  "empty_state = \<lparr>lastPhase = None, staticName = None, assigneeUserId = None\<rparr>"

text \<open>
  A recurring timer is known by the id its callback closed over: every firing calls
  \<open>runOnceAndUpdate\<close> on that id. A page is known by a handle.
\<close>

datatype timer = Interval msgid

type_synonym page = nat

text \<open>What the program tells the chat platform and the browser, in the order of the calls.\<close>

datatype notice =
    StartedTracking phase "string option"
  | StatusUpdate phase "string option"
  | OrderArrived
  | ScrapeError string
  | LoginRequired

datatype event =
    MsgEdit msgid payload
  | ChannelSend string payload
  | Ping string string notice
  | DirectMessage string notice
  | PageClosed page
  | IntervalCleared timer
  | OpsAlert string

record world =
  db :: "job_row list"
  timers :: "msgid \<rightharpoonup> timer"
  pages :: "msgid \<rightharpoonup> page"
  states :: "msgid \<rightharpoonup> runtime_state"
  log :: "event list"

text \<open>
  What the outside answers during one cycle. A pass of the fetch loop either loads a page
  (its final location and its parsed content) or throws an error with a message.
\<close>

datatype fetched = Loaded string document | Thrown string

datatype channel_state = TextChannel | OtherChannel | NoChannel string

datatype edit_result = EditOk | UnknownMessage | EditFailed string

record env =
  attempt0 :: fetched
  attempt1 :: fetched
  date_now :: int
  now_iso :: int
  embed_date :: string
  channel :: channel_state
  message_exists :: bool
  edit :: edit_result
  send :: "string + msgid"
  guild :: "string + string option"
  builders :: "string option"

text \<open>
  \<open>attempt0\<close>, \<open>attempt1\<close>: the first and the second pass of the loop in \<open>scrapeOrderPage\<close>.
  \<open>date_now\<close>: \<open>Date.now()\<close> in the error branch; \<open>now_iso\<close>: the instant \<open>nowIso()\<close> stamps;
  \<open>embed_date\<close>: the ISO text of \<open>new Date()\<close> when the embed is built.
  \<open>channel\<close>: \<open>client.channels.fetch(job.channel_id)\<close> gives a text channel, another
  channel, or rejects. \<open>message_exists\<close>: \<open>ch.messages.fetch(id)\<close> finds the message.
  \<open>edit\<close>: \<open>msg.edit(payload)\<close> succeeds, fails with code 10008, or fails otherwise.
  \<open>send\<close>: \<open>channel.send(payload)\<close> rejects or gives the id of the new message.
  \<open>guild\<close>: \<open>client.guilds.fetch(job.guild_id)\<close> rejects or gives the guild, of which
  only the icon URL is read. \<open>builders\<close>: the message with which \<open>EmbedBuilder\<close> or
  \<open>ButtonBuilder\<close> throws while the payload of the cycle is built (a field value over
  1024 characters, a URL they do not accept), if they throw.
\<close>

text \<open>A step that may throw: the world it reached, and the message when it threw.\<close>

datatype outcome = Done world | Raised string world

definition emit :: "event list \<Rightarrow> world \<Rightarrow> world" where
  "emit evs w = w\<lparr>log := log w @ evs\<rparr>"

section \<open>Session pool\<close>

text \<open>\<^verbatim>\<open>/detached Frame/i\<close> and \<^verbatim>\<open>/auth\.uber\.com/i\<close>\<close>

definition DETACH_RX :: rx where "DETACH_RX = LitI ''detached Frame''"
definition AUTH_RX :: rx where "AUTH_RX = LitI ''auth.uber.com''"

datatype scraped = RequiresLogin | Snapshot snapshot

definition isDetachErr :: "string \<Rightarrow> bool" where
  "isDetachErr m = rx_test DETACH_RX m"

text \<open>The body of the \<open>try\<close> in one pass of the loop.\<close>

definition scrape_pass :: "fetched \<Rightarrow> string + scraped" where
  "scrape_pass a =
     (case a of
        Thrown m \<Rightarrow> Inl m
      | Loaded location doc \<Rightarrow>
          if rx_test AUTH_RX location then Inr RequiresLogin
          else Inr (Snapshot (scrapeFromHTML doc)))"

text \<open>
  \<open>scrapeOrderPage\<close>: two passes at most; the second runs only when the first threw a
  detached-frame error, and whatever the second throws is passed on.
\<close>

definition scrapeOrderPage :: "env \<Rightarrow> string + scraped" where
  "scrapeOrderPage e =
     (case scrape_pass (attempt0 e) of
        Inr r \<Rightarrow> Inr r
      | Inl m \<Rightarrow> if isDetachErr m then scrape_pass (attempt1 e) else Inl m)"

section \<open>Publishing\<close>

text \<open>\<open>const x = map.get(old); if (x) { map.delete(old); map.set(new, x); }\<close>\<close>

definition move_key :: "msgid \<Rightarrow> msgid \<Rightarrow> (msgid \<rightharpoonup> 'a) \<Rightarrow> (msgid \<rightharpoonup> 'a)" where
  "move_key old new m = (case m old of None \<Rightarrow> m | Some x \<Rightarrow> (m(old := None))(new \<mapsto> x))"

text \<open>
  "Update DB & move runtime keys": the three map entries go to the new id. The update of
  the row is \<open>DB.updateByMessageId(message_id, { message_id: newMsg.id })\<close>, which leaves the
  row under the old id.
\<close>

definition migrate :: "msgid \<Rightarrow> msgid \<Rightarrow> world \<Rightarrow> world" where
  "migrate old new w =
     w\<lparr>db := DB_updateByMessageId old (\<lambda>r. r\<lparr>message_id := new\<rparr>) (db w),
       timers := move_key old new (timers w),
       pages := move_key old new (pages w),
       states := move_key old new (states w)\<rparr>"

definition repost :: "env \<Rightarrow> job_row \<Rightarrow> payload \<Rightarrow> world \<Rightarrow> outcome" where
  "repost e jobRow p w =
     (case channel e of
        NoChannel m \<Rightarrow> Raised m w
      | OtherChannel \<Rightarrow> Raised ''Cannot access channel to repost.'' w
      | TextChannel \<Rightarrow>
          (case send e of
             Inl m \<Rightarrow> Raised m (emit [ChannelSend (channel_id jobRow) p] w)
           | Inr newId \<Rightarrow>
               Done (migrate (message_id jobRow) newId
                       (emit [ChannelSend (channel_id jobRow) p] w))))"

text \<open>
  \<open>safeEditOrRepost(jobRow, payload)\<close>. \<open>fetchMessage\<close> gives the message only from a
  text channel that still has it; every failure on the way gives \<open>null\<close>.
\<close>

definition safeEditOrRepost :: "env \<Rightarrow> job_row \<Rightarrow> payload \<Rightarrow> world \<Rightarrow> outcome" where
  "safeEditOrRepost e jobRow p w =
     (if channel e = TextChannel \<and> message_exists e then
        (case edit e of
           EditOk \<Rightarrow> Done (emit [MsgEdit (message_id jobRow) p] w)
         | EditFailed m \<Rightarrow> Raised m (emit [MsgEdit (message_id jobRow) p] w)
         | UnknownMessage \<Rightarrow> repost e jobRow p (emit [MsgEdit (message_id jobRow) p] w))
      else repost e jobRow p w)"

section \<open>The polling cycle\<close>

text \<open>\<open>dmRequester\<close>: nothing without a user id; failures of the delivery are swallowed.\<close>

definition dmRequester :: "string option \<Rightarrow> notice \<Rightarrow> world \<Rightarrow> world" where
  "dmRequester userId n w =
     (case userId of
        None \<Rightarrow> w
      | Some u \<Rightarrow> if u = [] then w else emit [DirectMessage u n] w)"

text \<open>The \<open>catch\<close> around the scrape.\<close>

definition on_scrape_error :: "env \<Rightarrow> job_row \<Rightarrow> string \<Rightarrow> world \<Rightarrow> world" where
  "on_scrape_error e job m w =
     (if isDetachErr m then w
      else
        let tooSoon = (case last_error_at job of
                         None \<Rightarrow> False
                       | Some t \<Rightarrow> date_now e - t < 5 * 60000)
        in if tooSoon then w
           else (dmRequester (requester_user_id job) (ScrapeError m) w)
                  \<lparr>db := DB_updateByMessageId (message_id job)
                           (\<lambda>r. r\<lparr>last_error_at := Some (now_iso e)\<rparr>) (db w)\<rparr>)"

text \<open>The end of a job: timer, page, row and state go, in that order.\<close>

definition teardown :: "msgid \<Rightarrow> msgid \<Rightarrow> page \<Rightarrow> world \<Rightarrow> world" where
  "teardown messageId rowId pg w =
     (emit ((case timers w messageId of None \<Rightarrow> [] | Some t \<Rightarrow> [IntervalCleared t])
            @ [PageClosed pg]) w)
       \<lparr>timers := (timers w)(messageId := None),
        pages := (pages w)(messageId := None),
        db := DB_deleteByMessageId rowId (db w),
        states := (states w)(messageId := None)\<rparr>"

text \<open>The outer \<open>catch\<close> of the cycle: the fault goes to the operator.\<close>

definition caught :: "string \<Rightarrow> world \<Rightarrow> world" where
  "caught m w = emit [OpsAlert m] w"

definition login_payload :: "job_row \<Rightarrow> payload" where
  "login_payload job =
     \<lparr>content = '':warning: This link appears to require login on Uber. Please provide a **public** tracking link.'',
      embeds = [], components = [linkRow (Some (url job)) False]\<rparr>"

definition on_login_wall :: "env \<Rightarrow> msgid \<Rightarrow> job_row \<Rightarrow> page \<Rightarrow> world \<Rightarrow> world" where
  "on_login_wall e messageId job pg w =
     (case builders e of
        Some m \<Rightarrow> caught m w
      | None \<Rightarrow>
          (case safeEditOrRepost e job (login_payload job) w of
             Raised m w' \<Rightarrow> caught m w'
           | Done w' \<Rightarrow>
               teardown messageId messageId pg
                 (dmRequester (requester_user_id job) LoginRequired w')))"

text \<open>
  The name latch. \<open>st\<close> is the object the map holds, so an assignment to it is seen through
  the map at once, also when the cycle later throws; \<open>store_back\<close> writes the new value
  under the key where the map has an entry. When the map has none, \<open>st\<close> is a fresh object
  that only the final \<open>states.set\<close> makes reachable.
\<close>

definition name_latch :: "runtime_state \<Rightarrow> snapshot \<Rightarrow> runtime_state \<times> snapshot" where
  "name_latch st data =
     (let st' = (if \<not> truthy (staticName st) \<and> truthy (name data)
                 then st\<lparr>staticName := name data\<rparr> else st);
          data' = (if truthy (staticName st') \<and> \<not> truthy (name data)
                   then data\<lparr>name := staticName st'\<rparr> else data)
      in (st', data'))"

definition store_back :: "msgid \<Rightarrow> runtime_state \<Rightarrow> world \<Rightarrow> world" where
  "store_back messageId st w =
     (case states w messageId of
        None \<Rightarrow> w
      | Some old \<Rightarrow> w\<lparr>states := (states w)(messageId \<mapsto> st)\<rparr>)"

text \<open>\<open>classifyPhase(data.statusLine || data.statusText) || st.lastPhase || null\<close>\<close>

definition cycle_phase :: "runtime_state \<Rightarrow> snapshot \<Rightarrow> phase option" where
  "cycle_phase st data =
     (case classifyPhase (or_else (statusLine data) (Some (statusText data))) of
        Some p \<Rightarrow> Some p
      | None \<Rightarrow> lastPhase st)"

definition deliveredNow :: "snapshot \<Rightarrow> phase option \<Rightarrow> bool" where
  "deliveredNow data ph = (delivered data \<or> ph = Some DELIVERED)"

text \<open>
  A ping in the job's channel. The channel is fetched first, which may reject; a channel
  that is not a text channel has no \<open>send\<close>, and the call throws a \<open>TypeError\<close> that names
  the variable holding the channel.
\<close>

definition ping ::
  "env \<Rightarrow> job_row \<Rightarrow> string \<Rightarrow> string \<Rightarrow> notice \<Rightarrow> world \<Rightarrow> outcome" where
  "ping e job var user n w =
     (case channel e of
        NoChannel m \<Rightarrow> Raised m w
      | OtherChannel \<Rightarrow> Raised (var @ ''.send is not a function'') w
      | TextChannel \<Rightarrow> Done (emit [Ping (channel_id job) user n] w))"

text \<open>The ping on the first phase seen and on every change of phase.\<close>

definition phase_ping ::
  "env \<Rightarrow> job_row \<Rightarrow> runtime_state \<Rightarrow> phase option \<Rightarrow> snapshot \<Rightarrow> world \<Rightarrow> outcome" where
  "phase_ping e job st ph data w =
     (case assigneeUserId st of
        None \<Rightarrow> Done w
      | Some user \<Rightarrow>
          if user = [] then Done w
          else
            (case channel e of
               NoChannel m \<Rightarrow> Raised m w
             | _ \<Rightarrow>
                 (case ph of
                    None \<Rightarrow> Done w
                  | Some p \<Rightarrow>
                      if lastPhase st = None
                        then ping e job ''ch'' user (StartedTracking p (or_else (etaLine data) None)) w
                      else if lastPhase st \<noteq> Some p
                        then ping e job ''ch'' user (StatusUpdate p (or_else (etaLine data) None)) w
                      else Done w)))"

definition cycle_payload ::
  "config \<Rightarrow> snapshot \<Rightarrow> job_row \<Rightarrow> string option \<Rightarrow> string \<Rightarrow> bool \<Rightarrow> payload" where
  "cycle_payload cfg data job serverIconURL now is_delivered =
     (if is_delivered
      then \<lparr>content = [],
            embeds = [buildDeliveredEmbed cfg data (Some (url job)) serverIconURL now],
            components = [linkRow (Some (url job)) True]\<rparr>
      else \<lparr>content = [],
            embeds = [buildActiveEmbed cfg data (Some (url job)) serverIconURL now],
            components = [linkRow (Some (url job)) False]\<rparr>)"

text \<open>"Edit only on change": publish and record when the fingerprint is not the stored one.\<close>

definition persist :: "job_row \<Rightarrow> runtime_state \<Rightarrow> string \<Rightarrow> world \<Rightarrow> world" where
  "persist job st h w =
     w\<lparr>db := DB_updateByMessageId (message_id job)
                (\<lambda>r. r\<lparr>last_hash := Some h, last_phase := lastPhase st,
                       static_name := or_else (staticName st) None,
                       last_error_at := None\<rparr>) (db w)\<rparr>"

definition publish_on_change ::
  "env \<Rightarrow> job_row \<Rightarrow> runtime_state \<Rightarrow> payload \<Rightarrow> world \<Rightarrow> outcome" where
  "publish_on_change e job st p w =
     (let h = hashPayload p in
      if Some h \<noteq> last_hash job then
        (case safeEditOrRepost e job p w of
           Raised m w' \<Rightarrow> Raised m w'
         | Done w' \<Rightarrow> Done (persist job st h w'))
      else Done w)"

definition finalize ::
  "env \<Rightarrow> msgid \<Rightarrow> job_row \<Rightarrow> page \<Rightarrow> runtime_state \<Rightarrow> world \<Rightarrow> world" where
  "finalize e messageId job pg st w =
     (case (case assigneeUserId st of
              None \<Rightarrow> Done w
            | Some user \<Rightarrow> if user = [] then Done w else ping e job ''channel'' user OrderArrived w) of
        Raised m w' \<Rightarrow> caught m w'
      | Done w' \<Rightarrow> teardown messageId (message_id job) pg w')"

definition on_snapshot ::
  "config \<Rightarrow> env \<Rightarrow> msgid \<Rightarrow> job_row \<Rightarrow> page \<Rightarrow> snapshot \<Rightarrow> world \<Rightarrow> world" where
  "on_snapshot cfg e messageId job pg scraped w =
     (let st0 = (case states w messageId of None \<Rightarrow> empty_state | Some s \<Rightarrow> s);
          st1 = fst (name_latch st0 scraped);
          data = snd (name_latch st0 scraped);
          w1 = store_back messageId st1 w;
          ph = cycle_phase st1 data;
          st2 = st1\<lparr>lastPhase := ph\<rparr>
      in case phase_ping e job st1 ph data w1 of
           Raised m w' \<Rightarrow> caught m w'
         | Done w2 \<Rightarrow>
             (case guild e of
                Inl m \<Rightarrow> caught m (store_back messageId st2 w2)
              | Inr icon \<Rightarrow>
                  (case builders e of
                     Some m \<Rightarrow> caught m (store_back messageId st2 w2)
                   | None \<Rightarrow>
                       (case publish_on_change e job st2
                               (cycle_payload cfg data job icon (embed_date e)
                                  (deliveredNow data ph))
                               (store_back messageId st2 w2) of
                          Raised m w' \<Rightarrow> caught m w'
                        | Done w3 \<Rightarrow>
                            if deliveredNow data ph then finalize e messageId job pg st2 w3
                            else w3\<lparr>states := (states w3)(message_id job \<mapsto> st2)\<rparr>))))"

text \<open>\<open>runOnceAndUpdate(messageId)\<close>\<close>

definition runOnceAndUpdate :: "config \<Rightarrow> env \<Rightarrow> msgid \<Rightarrow> world \<Rightarrow> world" where
  "runOnceAndUpdate cfg e messageId w =
     (case DB_getByMessageId messageId (db w) of
        None \<Rightarrow>
          (emit (case timers w messageId of None \<Rightarrow> [] | Some t \<Rightarrow> [IntervalCleared t]) w)
            \<lparr>timers := (timers w)(messageId := None)\<rparr>
      | Some job \<Rightarrow>
          (case pages w messageId of
             None \<Rightarrow> w
           | Some pg \<Rightarrow>
               (case scrapeOrderPage e of
                  Inl m \<Rightarrow> on_scrape_error e job m w
                | Inr RequiresLogin \<Rightarrow> on_login_wall e messageId job pg w
                | Inr (Snapshot scraped) \<Rightarrow> on_snapshot cfg e messageId job pg scraped w)))"

text \<open>A firing of a timer, and a run of firings of the same timer.\<close>

definition fire :: "config \<Rightarrow> env \<Rightarrow> timer \<Rightarrow> world \<Rightarrow> world" where
  "fire cfg e t w = (case t of Interval messageId \<Rightarrow> runOnceAndUpdate cfg e messageId w)"

fun ticks :: "config \<Rightarrow> env list \<Rightarrow> msgid \<Rightarrow> world \<Rightarrow> world" where
  "ticks cfg [] messageId w = w"
| "ticks cfg (e # es) messageId w = ticks cfg es messageId (runOnceAndUpdate cfg e messageId w)"

section \<open>Start\<close>





section \<open>Vocabulary of the properties\<close>

text \<open>The events a step added to the log.\<close>

definition new_events :: "world \<Rightarrow> world \<Rightarrow> event list" where
  "new_events w w' = drop (length (log w)) (log w')"

text \<open>Events that publish the given payload for the given job, and events that ping.\<close>

definition publishes_only :: "job_row \<Rightarrow> payload \<Rightarrow> event list \<Rightarrow> bool" where
  "publishes_only job p evs =
     list_all (\<lambda>ev. ev = MsgEdit (message_id job) p \<or> ev = ChannelSend (channel_id job) p) evs"

definition pings_only :: "event list \<Rightarrow> bool" where
  "pings_only evs = list_all (\<lambda>ev. case ev of Ping c u n \<Rightarrow> True | _ \<Rightarrow> False) evs"

text \<open>The payloads that a list of events published.\<close>

definition published_payloads :: "event list \<Rightarrow> payload list" where
  "published_payloads evs =
     concat (map (\<lambda>ev. case ev of MsgEdit c p \<Rightarrow> [p] | ChannelSend c p \<Rightarrow> [p] | _ \<Rightarrow> []) evs)"

text \<open>The rows of a job, and whether some row of it has no phase stored.\<close>

definition rows_of :: "msgid \<Rightarrow> world \<Rightarrow> job_row list" where
  "rows_of m w = filter (\<lambda>r. message_id r = m) (db w)"

definition phase_unset :: "msgid \<Rightarrow> world \<Rightarrow> bool" where
  "phase_unset m w = (None \<in> set (map last_phase (rows_of m w)))"


definition phase_known_or_over :: "msgid \<Rightarrow> world \<Rightarrow> bool" where
  "phase_known_or_over m w =
     (case states w m of
        None \<Rightarrow> rows_of m w = []
      | Some st \<Rightarrow> lastPhase st \<noteq> None)"

text \<open>
  The store and the runtime of a job, coupled: one row, a page and a state under the id,
  or none of them.
\<close>

definition job_present :: "msgid \<Rightarrow> world \<Rightarrow> bool" where
  "job_present m w = (length (rows_of m w) = 1 \<and> pages w m \<noteq> None \<and> states w m \<noteq> None)"

definition job_absent :: "msgid \<Rightarrow> world \<Rightarrow> bool" where
  "job_absent m w = (rows_of m w = [] \<and> pages w m = None \<and> states w m = None)"

text \<open>Whether a faulting cycle tells the requester: not for a detached frame, not too soon.\<close>

definition notifies :: "env \<Rightarrow> job_row \<Rightarrow> string \<Rightarrow> bool" where
  "notifies e job x =
     (\<not> isDetachErr x
      \<and> (case last_error_at job of None \<Rightarrow> True | Some t \<Rightarrow> 5 * 60000 \<le> date_now e - t))"

text \<open>Whether a cycle threw: the outer \<open>catch\<close> sends every fault to the operator.\<close>

definition alerted :: "event list \<Rightarrow> bool" where
  "alerted evs = list_ex (\<lambda>ev. case ev of OpsAlert x \<Rightarrow> True | _ \<Rightarrow> False) evs"

text \<open>The ping that ends a job: to the notifier, when the job has one.\<close>

definition arrival_ping :: "job_row \<Rightarrow> runtime_state \<Rightarrow> event list" where
  "arrival_ping job st =
     (case assigneeUserId st of
        None \<Rightarrow> []
      | Some u \<Rightarrow> if u = [] then [] else [Ping (channel_id job) u OrderArrived])"

text \<open>The world an outcome carries, and whether the step threw.\<close>

definition world_of :: "outcome \<Rightarrow> world" where
  "world_of r = (case r of Done w \<Rightarrow> w | Raised x w \<Rightarrow> w)"

definition raised :: "outcome \<Rightarrow> bool" where
  "raised r = (case r of Done w \<Rightarrow> False | Raised x w \<Rightarrow> True)"


definition status_widget :: "document \<Rightarrow> node list" where
  "status_widget doc = select (testid ''active-order-sticky-eta'') doc"

text \<open>A text that is a part of another: some characters before it, some after.\<close>

fun part_of :: "string \<Rightarrow> string \<Rightarrow> bool" where
  "part_of g [] = (g = [])"
| "part_of g (c # cs) = (take (length g) (c # cs) = g \<or> part_of g cs)"


text \<open>The icon the cycle reads from the guild.\<close>

definition icon_of :: "env \<Rightarrow> string option" where
  "icon_of e = (case guild e of Inl x \<Rightarrow> None | Inr i \<Rightarrow> i)"

text \<open>What the publish step leaves behind when it does not throw.\<close>

definition published ::
  "env \<Rightarrow> job_row \<Rightarrow> runtime_state \<Rightarrow> payload \<Rightarrow> world \<Rightarrow> world \<Rightarrow> bool" where
  "published e job st p w w3 =
     ((w3 = w \<and> last_hash job = Some (hashPayload p))
      \<or> (w3 = persist job st (hashPayload p) (emit [MsgEdit (message_id job) p] w)
          \<and> channel e = TextChannel \<and> message_exists e \<and> edit e = EditOk)
      \<or> (\<exists>newId pevs. w3 = persist job st (hashPayload p)
                               (migrate (message_id job) newId (emit pevs w))
            \<and> publishes_only job p pevs \<and> pevs \<noteq> []
            \<and> channel e = TextChannel \<and> send e = Inr newId
            \<and> (\<not> message_exists e \<or> edit e = UnknownMessage)))"

section \<open>Example inputs\<close>

definition example_config :: config where
  "example_config =
     \<lparr>BRAND = ''116 GAMER'', VOUCH_CHANNEL_ID = ''1405983244096372839'',
      STORE_EMOJI = '':department_store:'', THEME = ''modern''\<rparr>"

text \<open>A page whose status widget shows one headline.\<close>

definition status_page :: "string \<Rightarrow> document" where
  "status_page headline =
     [Element ''html'' []
        [Element ''body'' []
           [Element ''div'' [(''data-testid'', ''active-order-sticky-eta'')]
              [Element ''div'' [] [Text headline]]]]]"

definition example_job :: job_row where
  "example_job =
     \<lparr>url = ''https://www.ubereats.com/orders/abc'', guild_id = ''G1'', channel_id = ''C1'',
      message_id = ''M1'', assignee_user_id = None, requester_user_id = Some ''U1'',
      static_name = None, last_phase = None, last_hash = None, last_error_at = None\<rparr>"

text \<open>One job as \<open>startJob\<close> leaves it: a row, a timer, a page and a state under one id.\<close>

definition example_world :: world where
  "example_world =
     \<lparr>db = [example_job],
      timers = [''M1'' \<mapsto> Interval ''M1''],
      pages = [''M1'' \<mapsto> 1],
      states = [''M1'' \<mapsto> \<lparr>lastPhase = None, staticName = None, assigneeUserId = None\<rparr>],
      log = []\<rparr>"

text \<open>A cycle in which the page loads and the chat platform does what it is asked.\<close>

definition calm :: "document \<Rightarrow> string \<Rightarrow> env" where
  "calm doc date =
     \<lparr>attempt0 = Loaded ''https://www.ubereats.com/orders/abc'' doc,
      attempt1 = Loaded ''https://www.ubereats.com/orders/abc'' doc,
      date_now = 1700000000000, now_iso = 1700000000001, embed_date = date,
      channel = TextChannel, message_exists = True, edit = EditOk, send = Inr ''M2'',
      guild = Inr None, builders = None\<rparr>"

text \<open>Two dates one minute apart, as \<open>setTimestamp\<close> stores them.\<close>

definition minute1 :: string where "minute1 = ''2023-11-14T22:13:20.000Z''"
definition minute2 :: string where "minute2 = ''2023-11-14T22:14:20.000Z''"

definition heading_page :: document where
  "heading_page = status_page ''Heading your way''"

definition delivered_page :: document where
  "delivered_page = status_page ''Your order has been delivered''"

text \<open>A cycle that finds the published message deleted; the repost gets the id \<open>M2\<close>.\<close>

definition message_lost :: env where
  "message_lost = (calm heading_page minute1)\<lparr>message_exists := False\<rparr>"

text \<open>A cycle whose fetch fails with a network error on the first pass.\<close>

definition network_fault :: env where
  "network_fault = (calm heading_page minute1)\<lparr>attempt0 := Thrown ''net::ERR_CONNECTION_RESET''\<rparr>"




text \<open>More pages: a name in the headline, headlines without one, and a page that thanks.\<close>

definition bob_page :: document where
  "bob_page = status_page ''Preparing Bob's order''"

definition almost_page :: document where
  "almost_page = status_page ''Almost there''"

definition hello_page :: document where
  "hello_page = status_page ''Hello''"

definition redelivered_page :: document where
  "redelivered_page = status_page ''Your order is being redelivered''"

definition thanks_page :: document where
  "thanks_page =
     [Element ''html'' []
        [Element ''body'' []
           [Element ''div'' [(''data-testid'', ''active-order-sticky-eta'')]
              [Element ''div'' [] [Text ''Heading your way'']],
            Element ''div'' [] [Text ''Enjoy your order!''],
            Element ''p'' [] [Text ''Thanks for using Uber Eats.'']]]]"






text \<open>A cycle in which the guild cannot be fetched, and a second network fault a minute later.\<close>

definition guild_fault :: env where
  "guild_fault = (calm bob_page minute1)\<lparr>guild := Inl ''Unknown Guild''\<rparr>"

definition network_fault_later :: env where
  "network_fault_later = network_fault\<lparr>date_now := 1700000060000, now_iso := 1700000060001\<rparr>"

text \<open>The example job with the phase HEADING known.\<close>

definition example_world_heading :: world where
  "example_world_heading =
     example_world\<lparr>states := [''M1'' \<mapsto>
        \<lparr>lastPhase = Some HEADING, staticName = None, assigneeUserId = None\<rparr>]\<rparr>"

section \<open>Properties of the classifier\<close>

lemma classifyPhase_is_first_match:
  "classifyPhase x = first_match phase_rules (toLowerCase (case x of None \<Rightarrow> [] | Some t \<Rightarrow> t))"
  by (simp add: classifyPhase_def first_match_def phase_rules_def Let_def)

lemma classify_being_prepared: "classifyPhase (Some ''Your order is being prepared'') = None"
  by code_simp

lemma classify_preparing: "classifyPhase (Some ''Preparing your order'') = Some PREPARING"
  by code_simp

lemma classify_heading: "classifyPhase (Some ''Heading your way'') = Some HEADING"
  by code_simp

lemma classify_almost: "classifyPhase (Some ''Almost there'') = Some ALMOST_HERE"
  by code_simp

lemma classify_delivered:
  "classifyPhase (Some ''Your order has been delivered'') = Some DELIVERED"
  by code_simp

lemma classify_hello: "classifyPhase (Some ''Hello'') = None"
  by code_simp

lemma classify_order_of_rules:
  "classifyPhase (Some ''Order received, almost there'') = Some PREPARING"
  by code_simp

text \<open>
  C3, as stated, fails: the headline "Your order is being prepared" is not classified as
  PREPARING. No rule mentions "prepared"; the first rule asks for "preparing".
\<close>

theorem C3_being_prepared_counterexample:
  "classifyPhase (Some ''Your order is being prepared'') \<noteq> Some PREPARING"
  using classify_being_prepared by simp

text \<open>
  C3, amended: the classifier is the ordered first-match-wins rule list over the
  lower-cased headline; it returns HEADING for "Heading your way", ALMOST_HERE for
  "Almost there", DELIVERED for "Your order has been delivered", absent for "Hello",
  and absent for "Your order is being prepared" (PREPARING needs a word of the first
  rule, as in "Preparing your order"). A headline that matches two rules gets the
  earlier one.
\<close>

theorem C3_classifyPhase_rules:
  "classifyPhase x = first_match phase_rules (toLowerCase (case x of None \<Rightarrow> [] | Some t \<Rightarrow> t))
   \<and> classifyPhase (Some ''Heading your way'') = Some HEADING
   \<and> classifyPhase (Some ''Almost there'') = Some ALMOST_HERE
   \<and> classifyPhase (Some ''Your order has been delivered'') = Some DELIVERED
   \<and> classifyPhase (Some ''Hello'') = None
   \<and> classifyPhase (Some ''Your order is being prepared'') = None
   \<and> classifyPhase (Some ''Preparing your order'') = Some PREPARING
   \<and> classifyPhase (Some ''Order received, almost there'') = Some PREPARING"
  using classifyPhase_is_first_match [of x] classify_heading classify_almost
    classify_delivered classify_hello classify_being_prepared classify_preparing
    classify_order_of_rules
  by simp

section \<open>Properties of the polling cycle\<close>

subsection \<open>Steps\<close>

lemma latch_delivered [simp]: "delivered (snd (name_latch st d)) = delivered d"
  by (simp add: name_latch_def Let_def)

lemma latch_phase [simp]:
  "cycle_phase (fst (name_latch st d)) (snd (name_latch st d)) = cycle_phase st d"
  by (auto simp add: name_latch_def Let_def cycle_phase_def split: option.splits)

lemma latch_deliveredNow [simp]:
  "deliveredNow (snd (name_latch st d)) ph = deliveredNow d ph"
  by (simp add: deliveredNow_def)

lemma emit_fields [simp]:
  "db (emit evs w) = db w" "timers (emit evs w) = timers w" "pages (emit evs w) = pages w"
  "states (emit evs w) = states w" "log (emit evs w) = log w @ evs"
  by (simp_all add: emit_def)

lemma emit_emit [simp]: "emit evs (emit evs' w) = emit (evs' @ evs) w"
  by (simp add: emit_def)

lemma caught_fields [simp]:
  "db (caught m w) = db w" "timers (caught m w) = timers w" "pages (caught m w) = pages w"
  "states (caught m w) = states w" "log (caught m w) = log w @ [OpsAlert m]"
  by (simp_all add: caught_def)

lemma store_back_fields [simp]:
  "db (store_back k st w) = db w" "timers (store_back k st w) = timers w"
  "pages (store_back k st w) = pages w" "log (store_back k st w) = log w"
  "states (store_back k st w) = (if states w k = None then states w else (states w)(k \<mapsto> st))"
  by (auto simp add: store_back_def split: option.splits)

lemma dm_fields [simp]:
  "db (dmRequester u n w) = db w" "timers (dmRequester u n w) = timers w"
  "pages (dmRequester u n w) = pages w" "states (dmRequester u n w) = states w"
  by (simp_all add: dmRequester_def split: option.splits)

lemma teardown_fields [simp]:
  "db (teardown k r pg w) = DB_deleteByMessageId r (db w)"
  "timers (teardown k r pg w) = (timers w)(k := None)"
  "pages (teardown k r pg w) = (pages w)(k := None)"
  "states (teardown k r pg w) = (states w)(k := None)"
  "log (teardown k r pg w) =
     log w @ (case timers w k of None \<Rightarrow> [] | Some t \<Rightarrow> [IntervalCleared t]) @ [PageClosed pg]"
  by (simp_all add: teardown_def)

lemma update_message_id [simp]:
  "DB_updateByMessageId m (\<lambda>r. r\<lparr>message_id := new\<rparr>) rows = rows"
  by (induction rows) (auto simp: DB_updateByMessageId_def)

lemma migrate_db [simp]: "db (migrate old new w) = db w"
  by (simp add: migrate_def)

lemma migrate_fields [simp]:
  "timers (migrate old new w) = move_key old new (timers w)"
  "pages (migrate old new w) = move_key old new (pages w)"
  "states (migrate old new w) = move_key old new (states w)"
  "log (migrate old new w) = log w"
  by (simp_all add: migrate_def)

lemma emit_nil [simp]: "emit [] w = w"
  by (simp add: emit_def)

lemma alerted_simps [simp]:
  "alerted [] = False" "alerted (evs @ evs') = (alerted evs \<or> alerted evs')"
  "alerted (OpsAlert x # evs) = True" "alerted (MsgEdit c p # evs) = alerted evs"
  "alerted (ChannelSend c p # evs) = alerted evs" "alerted (Ping c u n # evs) = alerted evs"
  "alerted (DirectMessage u n # evs) = alerted evs" "alerted (PageClosed pg # evs) = alerted evs"
  "alerted (IntervalCleared t # evs) = alerted evs"
  by (simp_all add: alerted_def)


lemma alerted_publishes: "publishes_only job p evs \<Longrightarrow> \<not> alerted evs"
  by (induction evs) (auto simp: publishes_only_def)

lemma ping_cases:
  assumes "ping e job var u n w = r"
  obtains (Raised) m where "r = Raised m w" "channel e \<noteq> TextChannel"
        | (Done) "r = Done (emit [Ping (channel_id job) u n] w)" "channel e = TextChannel"
  using assms by (cases "channel e") (auto simp: ping_def)

lemma phase_ping_cases:
  assumes "phase_ping e job st ph d w = r"
  obtains (Raised) m where "r = Raised m w"
        | (Done) evs where "r = Done (emit evs w)" "pings_only evs"
proof (cases "\<exists>m. r = Raised m w")
  case True
  then show ?thesis using Raised by blast
next
  case False
  have "r = Done (emit [] w) \<or> (\<exists>u n. r = Done (emit [Ping (channel_id job) u n] w))"
    using assms False
    by (cases "channel e")
       (auto simp: phase_ping_def ping_def split: option.splits if_splits)
  then show ?thesis
    using Done[of "[]"] Done by (auto simp: pings_only_def)
qed

lemma repost_cases:
  assumes "repost e job p w = r"
  obtains (Raised) m evs where "r = Raised m (emit evs w)" "publishes_only job p evs"
        | (Migrated) newId evs where
            "r = Done (migrate (message_id job) newId (emit evs w))" "publishes_only job p evs"
            "channel e = TextChannel" "send e = Inr newId" "evs \<noteq> []"
proof (cases "channel e")
  case TextChannel
  show ?thesis
  proof (cases "send e")
    case (Inl m)
    then show ?thesis
      using assms TextChannel Raised[of m "[ChannelSend (channel_id job) p]"]
      by (simp add: repost_def publishes_only_def)
  next
    case (Inr newId)
    then show ?thesis
      using assms TextChannel Migrated[of newId "[ChannelSend (channel_id job) p]"]
      by (simp add: repost_def publishes_only_def)
  qed
next
  case OtherChannel
  then show ?thesis
    using assms Raised[of _ "[]"] by (auto simp add: repost_def publishes_only_def)
next
  case (NoChannel m)
  then show ?thesis
    using assms Raised[of _ "[]"] by (auto simp add: repost_def publishes_only_def)
qed

lemma publishes_only_Cons:
  "publishes_only job p evs \<Longrightarrow> publishes_only job p (MsgEdit (message_id job) p # evs)"
  by (simp add: publishes_only_def)

lemma safeEdit_cases:
  assumes "safeEditOrRepost e job p w = r"
  obtains (Raised) m evs where "r = Raised m (emit evs w)" "publishes_only job p evs"
        | (Done) "r = Done (emit [MsgEdit (message_id job) p] w)"
            "channel e = TextChannel" "message_exists e" "edit e = EditOk"
        | (Migrated) newId evs where
            "r = Done (migrate (message_id job) newId (emit evs w))" "publishes_only job p evs"
            "channel e = TextChannel" "send e = Inr newId"
            "\<not> message_exists e \<or> edit e = UnknownMessage" "evs \<noteq> []"
proof (cases "channel e = TextChannel \<and> message_exists e")
  case True
  show ?thesis
  proof (cases "edit e")
    case EditOk
    then show ?thesis using assms True Done by (simp add: safeEditOrRepost_def)
  next
    case (EditFailed m)
    then show ?thesis
      using assms True Raised[of m "[MsgEdit (message_id job) p]"]
      by (simp add: safeEditOrRepost_def publishes_only_def)
  next
    case UnknownMessage
    then have r: "repost e job p (emit [MsgEdit (message_id job) p] w) = r"
      using assms True by (simp add: safeEditOrRepost_def)
    show ?thesis
    proof (cases rule: repost_cases[OF r])
      case (1 m evs)
      then show ?thesis
        using Raised[of m "MsgEdit (message_id job) p # evs"] by (simp add: publishes_only_Cons)
    next
      case (2 newId evs)
      then show ?thesis
        using Migrated[of newId "MsgEdit (message_id job) p # evs"] UnknownMessage
        by (simp add: publishes_only_Cons)
    qed
  qed
next
  case False
  then have r: "repost e job p w = r"
    using assms by (auto simp add: safeEditOrRepost_def)
  show ?thesis
  proof (cases rule: repost_cases[OF r])
    case (1 m evs)
    then show ?thesis using Raised by simp
  next
    case (2 newId evs)
    then show ?thesis using Migrated[of newId evs] False by simp
  qed
qed


lemma persist_fields [simp]:
  "timers (persist job st h w) = timers w" "pages (persist job st h w) = pages w"
  "states (persist job st h w) = states w" "log (persist job st h w) = log w"
  "db (persist job st h w) =
     DB_updateByMessageId (message_id job)
       (\<lambda>r. r\<lparr>last_hash := Some h, last_phase := lastPhase st,
              static_name := or_else (staticName st) None, last_error_at := None\<rparr>) (db w)"
  by (simp_all add: persist_def)

lemma publish_cases:
  assumes "publish_on_change e job st p w = r"
  obtains (Unchanged) "r = Done w" "last_hash job = Some (hashPayload p)"
        | (Raised) x pevs where "r = Raised x (emit pevs w)" "publishes_only job p pevs"
        | (Edited) "r = Done (persist job st (hashPayload p) (emit [MsgEdit (message_id job) p] w))"
            "channel e = TextChannel" "message_exists e" "edit e = EditOk"
            "last_hash job \<noteq> Some (hashPayload p)"
        | (Migrated) newId pevs where
            "r = Done (persist job st (hashPayload p)
                        (migrate (message_id job) newId (emit pevs w)))"
            "publishes_only job p pevs" "channel e = TextChannel" "send e = Inr newId"
            "\<not> message_exists e \<or> edit e = UnknownMessage" "pevs \<noteq> []"
proof (cases "last_hash job = Some (hashPayload p)")
  case True
  then show ?thesis using assms Unchanged by (simp add: publish_on_change_def)
next
  case False
  obtain r' where r': "safeEditOrRepost e job p w = r'" by simp
  show ?thesis
  proof (cases rule: safeEdit_cases[OF r'])
    case (1 m evs)
    then show ?thesis
      using assms False r' that(2)[of m evs] by (auto simp add: publish_on_change_def)
  next
    case 2
    then show ?thesis
      using assms False r' that(3) by (auto simp add: publish_on_change_def)
  next
    case (3 newId evs)
    then show ?thesis
      using assms False r' that(4)[of newId evs] by (auto simp add: publish_on_change_def)
  qed
qed

lemma pings_only_arrival [simp]: "pings_only (arrival_ping job st)"
  by (simp add: arrival_ping_def pings_only_def split: option.splits)

lemma finalize_cases:
  assumes "finalize e m job pg st w = r"
  obtains (Fault) x where "r = caught x w" "channel e \<noteq> TextChannel"
        | (Closed) "r = teardown m (message_id job) pg (emit (arrival_ping job st) w)"
proof (cases "case assigneeUserId st of None \<Rightarrow> False | Some u \<Rightarrow> u \<noteq> []")
  case False
  then have "r = teardown m (message_id job) pg (emit (arrival_ping job st) w)"
    using assms by (auto simp: finalize_def arrival_ping_def split: option.splits)
  then show ?thesis by (rule Closed)
next
  case True
  then obtain u where u: "assigneeUserId st = Some u" "u \<noteq> []"
    by (auto split: option.splits)
  obtain r' where r': "ping e job ''channel'' u OrderArrived w = r'" by simp
  show ?thesis
  proof (cases rule: ping_cases[OF r'])
    case (1 x)
    then show ?thesis using assms u r' Fault[of x] by (simp add: finalize_def)
  next
    case 2
    then show ?thesis
      using assms u r' Closed by (simp add: finalize_def arrival_ping_def)
  qed
qed

lemma on_snapshot_cases:
  fixes cfg e m job pg d w
  defines "st0 \<equiv> (case states w m of None \<Rightarrow> empty_state | Some s \<Rightarrow> s)"
  defines "st1 \<equiv> fst (name_latch st0 d)"
  defines "data \<equiv> snd (name_latch st0 d)"
  defines "ph \<equiv> cycle_phase st0 d"
  defines "st2 \<equiv> st1\<lparr>lastPhase := ph\<rparr>"
  defines "p \<equiv> cycle_payload cfg data job (icon_of e) (embed_date e) (deliveredNow d ph)"
  defines "w' \<equiv> on_snapshot cfg e m job pg d w"
  assumes mid: "message_id job = m"
  obtains
    (PingFault) x where "w' = caught x (store_back m st1 w)"
  | (BuildFault) x evs where "pings_only evs"
      "w' = caught x (store_back m st2 (emit evs (store_back m st1 w)))"
  | (PublishFault) x evs pevs where "pings_only evs" "publishes_only job p pevs"
      "w' = caught x (emit pevs (store_back m st2 (emit evs (store_back m st1 w))))"
  | (FinalFault) x evs w3 where "pings_only evs"
      "published e job st2 p (store_back m st2 (emit evs (store_back m st1 w))) w3"
      "deliveredNow d ph" "w' = caught x w3" "channel e \<noteq> TextChannel"
  | (Finalized) evs w3 where "pings_only evs"
      "published e job st2 p (store_back m st2 (emit evs (store_back m st1 w))) w3"
      "deliveredNow d ph" "w' = teardown m m pg (emit (arrival_ping job st2) w3)"
      "guild e = Inr (icon_of e)" "builders e = None"
  | (Active) evs w3 where "pings_only evs"
      "published e job st2 p (store_back m st2 (emit evs (store_back m st1 w))) w3"
      "\<not> deliveredNow d ph" "w' = w3\<lparr>states := (states w3)(m \<mapsto> st2)\<rparr>"
      "guild e = Inr (icon_of e)" "builders e = None"
proof -
  obtain r1 where r1: "phase_ping e job st1 ph data (store_back m st1 w) = r1" by simp
  show ?thesis
  proof (cases rule: phase_ping_cases[OF r1])
    case (1 x)
    then have "w' = caught x (store_back m st1 w)"
      using r1 by (simp add: w'_def on_snapshot_def Let_def st0_def st1_def data_def ph_def)
    then show ?thesis using PingFault by blast
  next
    case (2 evs)
    note ping = 2
    define base where "base = store_back m st2 (emit evs (store_back m st1 w))"
    show ?thesis
    proof (cases "guild e")
      case (Inl x)
      then have "w' = caught x base"
        using r1 ping
        by (simp add: w'_def on_snapshot_def Let_def st0_def st1_def st2_def data_def ph_def base_def)
      then show ?thesis using BuildFault[of evs x] ping by (simp add: base_def)
    next
      case (Inr icon)
      then have p: "p = cycle_payload cfg data job icon (embed_date e) (deliveredNow d ph)"
        and ic: "guild e = Inr (icon_of e)"
        by (simp_all add: p_def icon_of_def)
      show ?thesis
      proof (cases "builders e")
        case (Some x)
        then have "w' = caught x base"
          using r1 ping Inr
          by (simp add: w'_def on_snapshot_def Let_def st0_def st1_def st2_def data_def ph_def
                base_def)
        then show ?thesis using BuildFault[of evs x] ping by (simp add: base_def)
      next
        case None
        obtain r2 where r2: "publish_on_change e job st2 p base = r2" by simp
        have w'_eq: "w' = (case r2 of Raised x w'' \<Rightarrow> caught x w''
                           | Done w3 \<Rightarrow> if deliveredNow d ph then finalize e m job pg st2 w3
                                         else w3\<lparr>states := (states w3)(m \<mapsto> st2)\<rparr>)"
          using r1 ping Inr None r2 mid
          by (cases r2)
             (simp_all add: w'_def on_snapshot_def Let_def st0_def st1_def st2_def data_def ph_def
                base_def p)
        have fin: thesis if pub: "published e job st2 p base w3" and r2d: "r2 = Done w3" for w3
        proof (cases "deliveredNow d ph")
          case False
          then show ?thesis
            using w'_eq r2d Active[of evs w3] ping pub ic None by (simp add: base_def)
        next
          case True
          obtain r3 where r3: "finalize e m job pg st2 w3 = r3" by simp
          show ?thesis
          proof (cases rule: finalize_cases[OF r3])
            case (1 x)
            then show ?thesis
              using w'_eq r2d True r3 FinalFault[of evs w3 x] ping pub by (simp add: base_def)
          next
            case 2
            then show ?thesis
              using w'_eq r2d True r3 Finalized[of evs w3] ping pub mid ic None
              by (simp add: base_def)
          qed
        qed
        show ?thesis
        proof (cases rule: publish_cases[OF r2])
          case 1
          then show ?thesis using fin[of base] by (simp add: published_def)
        next
          case (2 x pevs)
          then show ?thesis
            using w'_eq PublishFault[of evs pevs x] ping by (simp add: base_def)
        next
          case 3
          then show ?thesis using fin by (simp add: published_def)
        next
          case (4 newId pevs)
          then show ?thesis using fin by (auto simp add: published_def)
        qed
      qed
    qed
  qed
qed


subsection \<open>Rows\<close>

lemma get_None_iff: "DB_getByMessageId m (db w) = None \<longleftrightarrow> rows_of m w = []"
  by (auto simp: DB_getByMessageId_def rows_of_def find_None_iff filter_empty_conv)

lemma get_message_id: "DB_getByMessageId m rows = Some job \<Longrightarrow> message_id job = m"
  by (auto simp: DB_getByMessageId_def find_Some_iff)

lemma filter_update_keep:
  "(\<And>r. message_id (f r) = message_id r) \<Longrightarrow>
   filter (\<lambda>r. message_id r = m) (DB_updateByMessageId k f rows) =
     map (\<lambda>r. if message_id r = k then f r else r) (filter (\<lambda>r. message_id r = m) rows)"
  by (induction rows) (auto simp: DB_updateByMessageId_def)

lemma update_keep:
  "(\<And>r. message_id (f r) = message_id r) \<Longrightarrow>
   DB_updateByMessageId k f rows = map (\<lambda>r. if message_id r = k then f r else r) rows"
  by (induction rows) (auto simp: DB_updateByMessageId_def)

lemma filter_delete [simp]:
  "filter (\<lambda>r. message_id r = m) (DB_deleteByMessageId m rows) = []"
  by (induction rows) (auto simp: DB_deleteByMessageId_def)

lemma rows_emit [simp]: "rows_of m (emit evs w) = rows_of m w"
  by (simp add: rows_of_def)

lemma rows_caught [simp]: "rows_of m (caught x w) = rows_of m w"
  by (simp add: rows_of_def)

lemma rows_store_back [simp]: "rows_of m (store_back k st w) = rows_of m w"
  by (simp add: rows_of_def)

lemma rows_dm [simp]: "rows_of m (dmRequester u n w) = rows_of m w"
  by (simp add: rows_of_def)

lemma rows_teardown [simp]: "rows_of m (teardown k m pg w) = []"
  by (simp add: rows_of_def)

lemma rows_states_update [simp]: "rows_of m (w\<lparr>states := s\<rparr>) = rows_of m w"
  by (simp add: rows_of_def)

lemma rows_timers_update [simp]: "rows_of m (w\<lparr>timers := s\<rparr>) = rows_of m w"
  by (simp add: rows_of_def)

lemma rows_persist:
  "message_id job = m \<Longrightarrow>
   rows_of m (persist job st h w) =
     map (\<lambda>r. r\<lparr>last_hash := Some h, last_phase := lastPhase st,
                 static_name := or_else (staticName st) None, last_error_at := None\<rparr>)
       (rows_of m w)"
  by (simp add: rows_of_def filter_update_keep cong: map_cong)

lemma rows_migrate [simp]: "rows_of k (migrate m new w) = rows_of k w"
  by (simp add: rows_of_def)

lemma filter_update_other:
  "k \<noteq> m \<Longrightarrow>
   filter (\<lambda>r. message_id r = k) (DB_updateByMessageId m f rows)
     = filter (\<lambda>r. message_id r = k) rows"
  by (induction rows) (auto simp: DB_updateByMessageId_def)

lemma filter_delete_other:
  "k \<noteq> m \<Longrightarrow>
   filter (\<lambda>r. message_id r = k) (DB_deleteByMessageId m rows)
     = filter (\<lambda>r. message_id r = k) rows"
  by (induction rows) (auto simp: DB_deleteByMessageId_def)

lemma move_key_same [simp]: "move_key m m f = f"
  by (auto simp: move_key_def split: option.splits)

lemma move_key_at_old: "new \<noteq> m \<Longrightarrow> move_key m new f m = None"
  by (auto simp: move_key_def split: option.splits)

lemma migrate_same [simp]: "migrate m m w = w"
  by (simp add: migrate_def)

subsection \<open>The publish step, field by field\<close>

lemma published_states_at:
  assumes "published e job st p w w3" "channel e \<noteq> TextChannel"
  shows "states w3 = states w"
  using assms by (auto simp: published_def)

lemma published_log:
  assumes "published e job st p w w3"
  shows "\<exists>pevs. publishes_only job p pevs \<and> log w3 = log w @ pevs"
  using assms by (auto simp: published_def publishes_only_def)


lemma published_rows:
  assumes "published e job st p w w3" "message_id job = m"
  shows "rows_of m w3 = rows_of m w
         \<or> rows_of m w3 =
             map (\<lambda>r. r\<lparr>last_hash := Some (hashPayload p), last_phase := lastPhase st,
                        static_name := or_else (staticName st) None, last_error_at := None\<rparr>)
               (rows_of m w)"
  using assms by (auto simp: published_def rows_persist)

lemma published_payloads_append [simp]:
  "published_payloads (xs @ ys) = published_payloads xs @ published_payloads ys"
  by (simp add: published_payloads_def)

lemma published_payloads_pings [simp]: "pings_only evs \<Longrightarrow> published_payloads evs = []"
  by (induction evs) (auto simp: pings_only_def published_payloads_def split: event.splits)

lemma published_payloads_only:
  "publishes_only job p evs \<Longrightarrow> p' \<in> set (published_payloads evs) \<Longrightarrow> p' = p"
  by (induction evs) (auto simp: publishes_only_def published_payloads_def)

lemma published_payloads_simps [simp]:
  "published_payloads [] = []"
  "published_payloads (OpsAlert x # evs) = published_payloads evs"
  "published_payloads (PageClosed pg # evs) = published_payloads evs"
  "published_payloads (IntervalCleared t # evs) = published_payloads evs"
  "published_payloads (DirectMessage u n # evs) = published_payloads evs"
  by (simp_all add: published_payloads_def)

subsection \<open>A cycle on a snapshot, field by field\<close>

lemma on_snapshot_states:
  assumes mid: "message_id job = m" and st: "states w m = Some st"
  shows "states (on_snapshot cfg e m job pg d w) m = Some (fst (name_latch st d))
         \<or> states (on_snapshot cfg e m job pg d w) m
             = Some ((fst (name_latch st d))\<lparr>lastPhase := cycle_phase st d\<rparr>)
         \<or> (states (on_snapshot cfg e m job pg d w) m = None
             \<and> rows_of m (on_snapshot cfg e m job pg d w) = [])"
proof (cases rule: on_snapshot_cases[OF mid, of cfg e pg d w])
  case (1 x)
  then show ?thesis using st by simp
next
  case (2 x evs)
  then show ?thesis using st by simp
next
  case (3 x evs pevs)
  then show ?thesis using st by simp
next
  case (4 x evs w3)
  then show ?thesis using st published_states_at[OF 4(2) 4(5)] by auto
next
  case (5 evs w3)
  then show ?thesis by simp
next
  case (6 evs w3)
  then show ?thesis using st by simp
qed

lemma on_snapshot_rows:
  assumes mid: "message_id job = m"
  shows "\<exists>st' h. rows_of m (on_snapshot cfg e m job pg d w) = rows_of m w
         \<or> rows_of m (on_snapshot cfg e m job pg d w) =
             map (\<lambda>r. r\<lparr>last_hash := Some h,
                        last_phase := cycle_phase (case states w m of None \<Rightarrow> empty_state | Some s \<Rightarrow> s) d,
                        static_name := st', last_error_at := None\<rparr>)
               (rows_of m w)
         \<or> rows_of m (on_snapshot cfg e m job pg d w) = []"
proof (cases rule: on_snapshot_cases[OF mid, of cfg e pg d w])
  case (1 x)
  then show ?thesis by simp
next
  case (2 x evs)
  then show ?thesis by simp
next
  case (3 x evs pevs)
  then show ?thesis by simp
next
  case (4 x evs w3)
  then show ?thesis using published_rows[OF 4(2) mid] by auto
next
  case (5 evs w3)
  then show ?thesis by simp
next
  case (6 evs w3)
  then show ?thesis using published_rows[OF 6(2) mid] by auto
qed

lemma on_snapshot_log:
  assumes mid: "message_id job = m"
  shows "\<exists>evs. log (on_snapshot cfg e m job pg d w) = log w @ evs
           \<and> (\<forall>p' \<in> set (published_payloads evs).
                 p' = cycle_payload cfg
                        (snd (name_latch (case states w m of None \<Rightarrow> empty_state | Some s \<Rightarrow> s) d))
                        job (icon_of e) (embed_date e)
                        (deliveredNow d
                           (cycle_phase (case states w m of None \<Rightarrow> empty_state | Some s \<Rightarrow> s) d)))"
proof (cases rule: on_snapshot_cases[OF mid, of cfg e pg d w])
  case (1 x)
  then show ?thesis by simp
next
  case (2 x evs)
  then show ?thesis by simp
next
  case (3 x evs pevs)
  then show ?thesis by (auto dest: published_payloads_only)
next
  case (4 x evs w3)
  then show ?thesis using published_log[OF 4(2)] by (auto dest: published_payloads_only)
next
  case (5 evs w3)
  then show ?thesis using published_log[OF 5(2)]
    by (auto dest: published_payloads_only split: option.splits)
next
  case (6 evs w3)
  then show ?thesis using published_log[OF 6(2)] by (auto dest: published_payloads_only)
qed


subsection \<open>The other branches of a cycle\<close>

lemma scrape_error_fields [simp]:
  "timers (on_scrape_error e job x w) = timers w" "pages (on_scrape_error e job x w) = pages w"
  "states (on_scrape_error e job x w) = states w"
  by (simp_all add: on_scrape_error_def Let_def)

lemma scrape_error_rows:
  "rows_of m (on_scrape_error e job x w) = rows_of m w
   \<or> rows_of m (on_scrape_error e job x w)
       = map (\<lambda>r. if message_id r = message_id job then r\<lparr>last_error_at := Some (now_iso e)\<rparr> else r)
           (rows_of m w)"
  by (simp add: on_scrape_error_def Let_def rows_of_def filter_update_keep)

lemma login_wall_cases:
  assumes mid: "message_id job = m"
  obtains (Fault) x evs where "publishes_only job (login_payload job) evs"
            "on_login_wall e m job pg w = caught x (emit evs w)"
        | (Closed) w2 where "rows_of m (on_login_wall e m job pg w) = []"
            "states (on_login_wall e m job pg w) m = None"
            "pages (on_login_wall e m job pg w) m = None"
            "timers (on_login_wall e m job pg w) m = None"
proof (cases "builders e")
  case (Some x)
  then show ?thesis using Fault[of "[]" x] by (simp add: on_login_wall_def publishes_only_def)
next
  case None
  obtain r where r: "safeEditOrRepost e job (login_payload job) w = r" by simp
  show ?thesis
  proof (cases rule: safeEdit_cases[OF r])
    case (1 x evs)
    then show ?thesis using r None Fault[of evs x] by (simp add: on_login_wall_def)
  next
    case 2
    then show ?thesis using r None Closed by (simp add: on_login_wall_def)
  next
    case (3 newId evs)
    then show ?thesis using r None Closed by (simp add: on_login_wall_def)
  qed
qed

subsection \<open>Invariants of the cycle\<close>

lemma truthy_Some [simp]: "truthy (Some n) = (n \<noteq> [])"
  by (simp add: truthy_def)

lemma truthy_None [simp]: "\<not> truthy None"
  by (simp add: truthy_def)




lemma latch_lastPhase [simp]: "lastPhase (fst (name_latch st d)) = lastPhase st"
  by (simp add: name_latch_def Let_def)

lemma rows_nonempty: "DB_getByMessageId m (db w) = Some job \<Longrightarrow> rows_of m w \<noteq> []"
  using get_None_iff[of m w] by auto





lemma new_events_same [simp]: "new_events w w = []"
  by (simp add: new_events_def)




subsection \<open>Phase retention\<close>

lemma cycle_phase_absent:
  "classifyPhase (or_else (statusLine d) (Some (statusText d))) = None \<Longrightarrow>
   cycle_phase st d = lastPhase st"
  by (simp add: cycle_phase_def)

lemma cycle_phase_known: "lastPhase st \<noteq> None \<Longrightarrow> cycle_phase st d \<noteq> None"
  by (auto simp: cycle_phase_def split: option.splits)

lemma no_row_cycle:
  assumes "DB_getByMessageId m (db w) = None"
  shows "states (runOnceAndUpdate cfg e m w) = states w"
    and "pages (runOnceAndUpdate cfg e m w) = pages w"
    and "rows_of k (runOnceAndUpdate cfg e m w) = rows_of k w"
    and "timers (runOnceAndUpdate cfg e m w) = (timers w)(m := None)"
  using assms by (simp_all add: runOnceAndUpdate_def)

lemma phase_retained:
  assumes st: "states w m = Some st"
    and sc: "scrapeOrderPage e = Inr (Snapshot d)"
    and absent: "classifyPhase (or_else (statusLine d) (Some (statusText d))) = None"
  shows "(case states (runOnceAndUpdate cfg e m w) m of
            None \<Rightarrow> True | Some st' \<Rightarrow> lastPhase st' = lastPhase st)
         \<and> set (map last_phase (rows_of m (runOnceAndUpdate cfg e m w)))
             \<subseteq> insert (lastPhase st) (set (map last_phase (rows_of m w)))"
proof (cases "DB_getByMessageId m (db w)")
  case None
  then show ?thesis using st by (auto simp add: no_row_cycle)
next
  case (Some job)
  note mid = get_message_id[OF Some]
  show ?thesis
  proof (cases "pages w m")
    case None
    then show ?thesis using Some st by (auto simp add: runOnceAndUpdate_def)
  next
    case pg: (Some pg)
    have run: "runOnceAndUpdate cfg e m w = on_snapshot cfg e m job pg d w"
      using Some pg sc by (simp add: runOnceAndUpdate_def)
    have ph: "cycle_phase st d = lastPhase st"
      using absent by (rule cycle_phase_absent)
    have "case states (on_snapshot cfg e m job pg d w) m of
            None \<Rightarrow> True | Some st' \<Rightarrow> lastPhase st' = lastPhase st"
      using on_snapshot_states[OF mid st, of cfg e pg d] ph by auto
    moreover have "set (map last_phase (rows_of m (on_snapshot cfg e m job pg d w)))
             \<subseteq> insert (lastPhase st) (set (map last_phase (rows_of m w)))"
      using on_snapshot_rows[OF mid, of cfg e pg d w] st ph by auto
    ultimately show ?thesis using run by simp
  qed
qed

lemma phase_cycle:
  assumes inv: "phase_known_or_over m w"
  shows "phase_known_or_over m (runOnceAndUpdate cfg e m w)
         \<and> (phase_unset m (runOnceAndUpdate cfg e m w) \<longrightarrow> phase_unset m w)"
proof (cases "DB_getByMessageId m (db w)")
  case None
  then show ?thesis using inv
    by (auto simp: no_row_cycle phase_known_or_over_def phase_unset_def split: option.splits)
next
  case (Some job)
  note mid = get_message_id[OF Some]
  from inv rows_nonempty[OF Some] obtain st where st: "states w m = Some st" "lastPhase st \<noteq> None"
    by (auto simp: phase_known_or_over_def split: option.splits)
  show ?thesis
  proof (cases "pages w m")
    case None
    then show ?thesis using Some inv by (simp add: runOnceAndUpdate_def)
  next
    case pg: (Some pg)
    show ?thesis
    proof (cases "scrapeOrderPage e")
      case (Inl x)
      then have run: "runOnceAndUpdate cfg e m w = on_scrape_error e job x w"
        using Some pg by (simp add: runOnceAndUpdate_def)
      show ?thesis
        using scrape_error_rows[of m e job x w] st
        by (auto simp: run phase_known_or_over_def phase_unset_def)
    next
      case (Inr sc)
      show ?thesis
      proof (cases sc)
        case RequiresLogin
        then have run: "runOnceAndUpdate cfg e m w = on_login_wall e m job pg w"
          using Some pg Inr by (simp add: runOnceAndUpdate_def)
        show ?thesis unfolding run
          by (cases rule: login_wall_cases[OF mid, of e pg w])
             (use st in \<open>simp_all add: phase_known_or_over_def phase_unset_def\<close>)
      next
        case (Snapshot d)
        then have run: "runOnceAndUpdate cfg e m w = on_snapshot cfg e m job pg d w"
          using Some pg Inr by (simp add: runOnceAndUpdate_def)
        have "phase_known_or_over m (on_snapshot cfg e m job pg d w)"
          using on_snapshot_states[OF mid st(1), of cfg e pg d] st(2) cycle_phase_known[OF st(2), of d]
          by (auto simp: phase_known_or_over_def)
        moreover have "phase_unset m (on_snapshot cfg e m job pg d w) \<longrightarrow> phase_unset m w"
          using on_snapshot_rows[OF mid, of cfg e pg d w] st cycle_phase_known[OF st(2), of d]
          by (auto simp: phase_unset_def)
        ultimately show ?thesis using run by simp
      qed
    qed
  qed
qed

lemma phase_ticks:
  "phase_known_or_over m w \<Longrightarrow>
   phase_known_or_over m (ticks cfg es m w) \<and> (phase_unset m (ticks cfg es m w) \<longrightarrow> phase_unset m w)"
proof (induction es arbitrary: w)
  case Nil
  then show ?case by simp
next
  case (Cons e es)
  from phase_cycle[OF Cons.prems, of cfg e] Cons.IH[of "runOnceAndUpdate cfg e m w"]
  show ?case by auto
qed

text \<open>
  C8. When the classifier finds no phase in a cycle's headline, the phase in the runtime
  state is the one it was, and every row of the job stores what it stored before or that
  same phase. A phase that is set is never set back to absent: not in the runtime state,
  as long as the job lasts, and not in the store.
\<close>

theorem C8_phase_retained:
  assumes "states w m = Some st"
  shows "(scrapeOrderPage e = Inr (Snapshot d)
            \<and> classifyPhase (or_else (statusLine d) (Some (statusText d))) = None
          \<longrightarrow> (case states (runOnceAndUpdate cfg e m w) m of
                  None \<Rightarrow> True | Some st' \<Rightarrow> lastPhase st' = lastPhase st)
               \<and> set (map last_phase (rows_of m (runOnceAndUpdate cfg e m w)))
                   \<subseteq> insert (lastPhase st) (set (map last_phase (rows_of m w))))
         \<and> (lastPhase st \<noteq> None
          \<longrightarrow> phase_known_or_over m (ticks cfg es m w)
               \<and> (phase_unset m (ticks cfg es m w) \<longrightarrow> phase_unset m w))"
proof -
  have "lastPhase st \<noteq> None \<Longrightarrow> phase_known_or_over m w"
    using assms by (simp add: phase_known_or_over_def)
  then show ?thesis
    using phase_retained[OF assms, of e d cfg] phase_ticks[of m w cfg es] by blast
qed

subsection \<open>A cycle without faults\<close>


lemma publish_calm:
  assumes "channel e = TextChannel" "message_exists e" "edit e = EditOk"
  shows "publish_on_change e job st p w =
           (if last_hash job = Some (hashPayload p) then Done w
            else Done (persist job st (hashPayload p) (emit [MsgEdit (message_id job) p] w)))"
  using assms by (auto simp: publish_on_change_def safeEditOrRepost_def Let_def)






lemma new_events_emit [simp]: "new_events w (emit evs w) = evs"
  by (simp add: new_events_def)



subsection \<open>A cycle that does not throw\<close>





subsection \<open>A faulting cycle\<close>

lemma scrape_fault_origin:
  assumes "scrapeOrderPage e = Inl x"
  shows "(attempt0 e = Thrown x \<and> \<not> isDetachErr x)
         \<or> (\<exists>x0. attempt0 e = Thrown x0 \<and> isDetachErr x0 \<and> attempt1 e = Thrown x)"
  using assms
  by (auto simp: scrapeOrderPage_def scrape_pass_def split: fetched.splits if_splits)

lemma scrape_retry:
  "attempt0 e = Thrown x0 \<Longrightarrow>
   scrapeOrderPage e = (if isDetachErr x0 then scrape_pass (attempt1 e) else Inl x0)"
  by (simp add: scrapeOrderPage_def scrape_pass_def)

lemma get_update_keep:
  assumes "\<And>r. message_id (f r) = message_id r" "DB_getByMessageId m rows = Some job"
  shows "DB_getByMessageId m (DB_updateByMessageId m f rows) = Some (f job)"
  using assms
  by (induction rows) (auto simp: DB_getByMessageId_def DB_updateByMessageId_def)

lemma map_message_id_update:
  "map message_id (DB_updateByMessageId k f rows) = map message_id rows"
  by (induction rows) (auto simp: DB_updateByMessageId_def)

lemma scrape_error_world:
  "on_scrape_error e job x w =
     (if notifies e job x
      then (dmRequester (requester_user_id job) (ScrapeError x) w)
             \<lparr>db := DB_updateByMessageId (message_id job)
                      (\<lambda>r. r\<lparr>last_error_at := Some (now_iso e)\<rparr>) (db w)\<rparr>
      else w)"
  by (auto simp: on_scrape_error_def notifies_def Let_def split: option.splits)

lemma dm_log:
  "log (dmRequester u n w) =
     log w @ (case u of None \<Rightarrow> [] | Some v \<Rightarrow> if v = [] then [] else [DirectMessage v n])"
  by (simp add: dmRequester_def split: option.splits)

lemma faulting_cycle:
  assumes row: "DB_getByMessageId m (db w) = Some job" and pg: "pages w m = Some pg"
    and fault: "scrapeOrderPage e = Inl x"
  shows "runOnceAndUpdate cfg e m w = on_scrape_error e job x w"
    and "new_events w (on_scrape_error e job x w) =
               (if notifies e job x
                then (case requester_user_id job of
                        None \<Rightarrow> []
                      | Some u \<Rightarrow> if u = [] then [] else [DirectMessage u (ScrapeError x)])
                else [])"
    and "map message_id (db (on_scrape_error e job x w)) = map message_id (db w)"
    and "notifies e job x \<Longrightarrow>
         map last_error_at (rows_of m (on_scrape_error e job x w))
           = map (\<lambda>r. Some (now_iso e)) (rows_of m w)"
    and "notifies e job x \<Longrightarrow>
         DB_getByMessageId m (db (on_scrape_error e job x w))
           = Some (job\<lparr>last_error_at := Some (now_iso e)\<rparr>)"
    and "\<not> notifies e job x \<Longrightarrow> on_scrape_error e job x w = w"
proof -
  note mid = get_message_id[OF row]
  show "runOnceAndUpdate cfg e m w = on_scrape_error e job x w"
    using assms by (simp add: runOnceAndUpdate_def)
  show "new_events w (on_scrape_error e job x w) =
               (if notifies e job x
                then (case requester_user_id job of
                        None \<Rightarrow> []
                      | Some u \<Rightarrow> if u = [] then [] else [DirectMessage u (ScrapeError x)])
                else [])"
    by (simp add: scrape_error_world new_events_def dm_log)
  show "map message_id (db (on_scrape_error e job x w)) = map message_id (db w)"
    by (simp add: scrape_error_world map_message_id_update)
  show "map last_error_at (rows_of m (on_scrape_error e job x w))
           = map (\<lambda>r. Some (now_iso e)) (rows_of m w)" if "notifies e job x"
    using that mid by (simp add: scrape_error_world rows_of_def filter_update_keep)
  show "DB_getByMessageId m (db (on_scrape_error e job x w))
           = Some (job\<lparr>last_error_at := Some (now_iso e)\<rparr>)" if "notifies e job x"
    using that mid get_update_keep[OF _ row, of "\<lambda>r. r\<lparr>last_error_at := Some (now_iso e)\<rparr>"]
    by (simp add: scrape_error_world)
  show "on_scrape_error e job x w = w" if "\<not> notifies e job x"
    using that by (simp add: scrape_error_world)
qed

subsection \<open>The five minutes after a notice\<close>

lemma login_wall_log: "\<exists>evs. log (on_login_wall e m job pg w) = log w @ evs"
proof (cases "builders e")
  case (Some x)
  then show ?thesis by (simp add: on_login_wall_def)
next
  case None
  obtain r where r: "safeEditOrRepost e job (login_payload job) w = r" by simp
  show ?thesis
    by (cases rule: safeEdit_cases[OF r])
       (use r None in \<open>simp_all add: on_login_wall_def dm_log\<close>)
qed

lemma run_log: "\<exists>evs. log (runOnceAndUpdate cfg e m w) = log w @ evs"
proof (cases "DB_getByMessageId m (db w)")
  case None
  then show ?thesis by (simp add: runOnceAndUpdate_def)
next
  case (Some job)
  note mid = get_message_id[OF Some]
  show ?thesis
  proof (cases "pages w m")
    case None
    then show ?thesis using Some by (simp add: runOnceAndUpdate_def)
  next
    case pg: (Some pg)
    show ?thesis
    proof (cases "scrapeOrderPage e")
      case (Inl x)
      then show ?thesis
        using Some pg by (simp add: runOnceAndUpdate_def scrape_error_world dm_log)
    next
      case (Inr r)
      show ?thesis
      proof (cases r)
        case RequiresLogin
        then show ?thesis
          using Some pg Inr login_wall_log[of e m job pg w] by (simp add: runOnceAndUpdate_def)
      next
        case (Snapshot d)
        then show ?thesis
          using Some pg Inr on_snapshot_log[OF mid, of cfg e pg d w]
          by (auto simp add: runOnceAndUpdate_def)
      qed
    qed
  qed
qed

lemma ticks_log: "\<exists>evs. log (ticks cfg es m w) = log w @ evs"
proof (induction es arbitrary: w)
  case Nil
  then show ?case by simp
next
  case (Cons e es)
  obtain a where a: "log (runOnceAndUpdate cfg e m w) = log w @ a"
    using run_log by blast
  obtain b where "log (ticks cfg es m (runOnceAndUpdate cfg e m w))
                    = log (runOnceAndUpdate cfg e m w) @ b"
    using Cons.IH by blast
  then show ?case using a by simp
qed

lemma new_events_step:
  "new_events w (ticks cfg (e # es) m w) =
     new_events w (runOnceAndUpdate cfg e m w)
     @ new_events (runOnceAndUpdate cfg e m w) (ticks cfg es m (runOnceAndUpdate cfg e m w))"
proof -
  obtain a where a: "log (runOnceAndUpdate cfg e m w) = log w @ a"
    using run_log by blast
  obtain b where b: "log (ticks cfg es m (runOnceAndUpdate cfg e m w))
                    = log (runOnceAndUpdate cfg e m w) @ b"
    using ticks_log by blast
  show ?thesis by (simp add: new_events_def a b)
qed

lemma published_payloads_publishes:
  "publishes_only job p evs \<Longrightarrow> evs \<noteq> [] \<Longrightarrow> published_payloads evs \<noteq> []"
  by (cases evs) (auto simp: publishes_only_def published_payloads_def)

lemma published_silent:
  assumes "published e job st p w w3" "published_payloads (new_events w w3) = []"
  shows "w3 = w"
  using assms
  by (auto simp: published_def new_events_def published_payloads_def
      dest: published_payloads_publishes)

text \<open>A cycle on a snapshot that publishes nothing leaves the rows alone, or ends the job.\<close>

lemma silent_snapshot_rows:
  assumes mid: "message_id job = m"
    and nopub: "published_payloads (new_events w (on_snapshot cfg e m job pg d w)) = []"
  shows "rows_of m (on_snapshot cfg e m job pg d w) = rows_of m w
         \<or> (rows_of m (on_snapshot cfg e m job pg d w) = []
             \<and> timers (on_snapshot cfg e m job pg d w) m = None)"
proof (cases rule: on_snapshot_cases[OF mid, of cfg e pg d w])
  case (1 x)
  then show ?thesis by simp
next
  case (2 x evs)
  then show ?thesis by simp
next
  case (3 x evs pevs)
  then show ?thesis by simp
next
  case (4 x evs w3)
  obtain pevs where pevs: "log w3 = log w @ evs @ pevs"
    using published_log[OF 4(2)] by auto
  have "published_payloads pevs = []"
    using nopub 4(1) by (simp add: 4(4) new_events_def pevs)
  then have "w3 = store_back m
                    ((fst (name_latch (case states w m of None \<Rightarrow> empty_state | Some s \<Rightarrow> s) d))
                       \<lparr>lastPhase := cycle_phase (case states w m of None \<Rightarrow> empty_state | Some s \<Rightarrow> s) d\<rparr>)
                    (emit evs (store_back m
                       (fst (name_latch (case states w m of None \<Rightarrow> empty_state | Some s \<Rightarrow> s) d)) w))"
    using published_silent[OF 4(2)] by (simp add: new_events_def pevs)
  then show ?thesis using 4(4) by simp
next
  case (5 evs w3)
  then show ?thesis by simp
next
  case (6 evs w3)
  obtain pevs where pevs: "log w3 = log w @ evs @ pevs"
    using published_log[OF 6(2)] by auto
  have "published_payloads pevs = []"
    using nopub 6(1) by (simp add: 6(4) new_events_def pevs)
  then have "w3 = store_back m
                    ((fst (name_latch (case states w m of None \<Rightarrow> empty_state | Some s \<Rightarrow> s) d))
                       \<lparr>lastPhase := cycle_phase (case states w m of None \<Rightarrow> empty_state | Some s \<Rightarrow> s) d\<rparr>)
                    (emit evs (store_back m
                       (fst (name_latch (case states w m of None \<Rightarrow> empty_state | Some s \<Rightarrow> s) d)) w))"
    using published_silent[OF 6(2)] by (simp add: new_events_def pevs)
  then show ?thesis using 6(4) by simp
qed

lemma job_in_rows:
  "DB_getByMessageId m (db w) = Some job \<Longrightarrow> job \<in> set (rows_of m w)"
  by (auto simp: DB_getByMessageId_def rows_of_def find_Some_iff)

text \<open>
  The window: every row of the job has the stamp \<open>t0\<close>, and a job without rows has no
  timer. A cycle less than five minutes after \<open>t0\<close> that publishes nothing keeps both,
  and a cycle in the window whose fetch faults changes nothing at all.
\<close>

lemma window_cycle:
  assumes inv: "\<forall>r \<in> set (rows_of m w). last_error_at r = Some t0"
    and tim: "rows_of m w = [] \<longrightarrow> timers w m = None"
    and soon: "date_now e - t0 < 5 * 60000"
    and nopub: "published_payloads (new_events w (runOnceAndUpdate cfg e m w)) = []"
  shows "(\<forall>r \<in> set (rows_of m (runOnceAndUpdate cfg e m w)). last_error_at r = Some t0)
         \<and> (rows_of m (runOnceAndUpdate cfg e m w) = []
              \<longrightarrow> timers (runOnceAndUpdate cfg e m w) m = None)"
proof (cases "DB_getByMessageId m (db w)")
  case None
  then have "rows_of m w = []" by (simp add: get_None_iff)
  then show ?thesis using None by (simp add: runOnceAndUpdate_def)
next
  case (Some job)
  note mid = get_message_id[OF Some]
  have stamp: "last_error_at job = Some t0"
    using inv job_in_rows[OF Some] by blast
  show ?thesis
  proof (cases "pages w m")
    case None
    then show ?thesis using Some inv tim by (simp add: runOnceAndUpdate_def)
  next
    case pg: (Some pg)
    show ?thesis
    proof (cases "scrapeOrderPage e")
      case (Inl x)
      have "\<not> notifies e job x"
        using stamp soon by (simp add: notifies_def)
      then show ?thesis
        using Some pg Inl inv tim by (simp add: runOnceAndUpdate_def scrape_error_world)
    next
      case (Inr r)
      show ?thesis
      proof (cases r)
        case RequiresLogin
        then have run: "runOnceAndUpdate cfg e m w = on_login_wall e m job pg w"
          using Some pg Inr by (simp add: runOnceAndUpdate_def)
        show ?thesis
          unfolding run
          by (cases rule: login_wall_cases[OF mid, of e pg w]) (use inv tim in simp_all)
      next
        case (Snapshot d)
        then have run: "runOnceAndUpdate cfg e m w = on_snapshot cfg e m job pg d w"
          using Some pg Inr by (simp add: runOnceAndUpdate_def)
        show ?thesis
          using silent_snapshot_rows[OF mid nopub[unfolded run]] inv rows_nonempty[OF Some]
          unfolding run by auto
      qed
    qed
  qed
qed

lemma window_fault:
  assumes inv: "\<forall>r \<in> set (rows_of m w). last_error_at r = Some t0"
    and tim: "rows_of m w = [] \<longrightarrow> timers w m = None"
    and soon: "date_now e - t0 < 5 * 60000"
    and fault: "scrapeOrderPage e = Inl x"
  shows "runOnceAndUpdate cfg e m w = w"
proof (cases "DB_getByMessageId m (db w)")
  case None
  then have "timers w m = None" using tim by (simp add: get_None_iff)
  then have "(timers w)(m := None) = timers w"
    by (simp add: fun_upd_idem_iff)
  then show ?thesis using None \<open>timers w m = None\<close> by (simp add: runOnceAndUpdate_def emit_def)
next
  case (Some job)
  have "\<not> notifies e job x"
    using inv job_in_rows[OF Some] soon by (auto simp add: notifies_def)
  then show ?thesis
    using Some fault by (simp add: runOnceAndUpdate_def scrape_error_world split: option.splits)
qed

lemma window_ticks:
  assumes "\<forall>r \<in> set (rows_of m w). last_error_at r = Some t0"
    and "rows_of m w = [] \<longrightarrow> timers w m = None"
    and "\<forall>e \<in> set es. date_now e - t0 < 5 * 60000"
    and "published_payloads (new_events w (ticks cfg es m w)) = []"
  shows "(\<forall>r \<in> set (rows_of m (ticks cfg es m w)). last_error_at r = Some t0)
         \<and> (rows_of m (ticks cfg es m w) = [] \<longrightarrow> timers (ticks cfg es m w) m = None)"
  using assms
proof (induction es arbitrary: w)
  case Nil
  then show ?case by simp
next
  case (Cons e es)
  have nopub: "published_payloads (new_events w (runOnceAndUpdate cfg e m w)) = []"
    "published_payloads (new_events (runOnceAndUpdate cfg e m w)
        (ticks cfg es m (runOnceAndUpdate cfg e m w))) = []"
    using Cons.prems(4) unfolding new_events_step by simp_all
  have step: "(\<forall>r \<in> set (rows_of m (runOnceAndUpdate cfg e m w)). last_error_at r = Some t0)
         \<and> (rows_of m (runOnceAndUpdate cfg e m w) = []
              \<longrightarrow> timers (runOnceAndUpdate cfg e m w) m = None)"
    using window_cycle[OF Cons.prems(1,2) _ nopub(1)] Cons.prems(3) by simp
  show ?case
    using Cons.IH[of "runOnceAndUpdate cfg e m w"] step Cons.prems(3) nopub(2) by simp
qed

lemma silent_window:
  assumes row: "DB_getByMessageId m (db w) = Some job" and pg: "pages w m = Some pg"
    and fault: "scrapeOrderPage e = Inl x" and n: "notifies e job x"
    and soon: "\<forall>e' \<in> set es. date_now e' - now_iso e < 5 * 60000"
    and nopub: "published_payloads
                  (new_events (runOnceAndUpdate cfg e m w)
                     (ticks cfg es m (runOnceAndUpdate cfg e m w))) = []"
    and fault2: "scrapeOrderPage e2 = Inl x2" "date_now e2 - now_iso e < 5 * 60000"
  shows "new_events (ticks cfg es m (runOnceAndUpdate cfg e m w))
           (runOnceAndUpdate cfg e2 m (ticks cfg es m (runOnceAndUpdate cfg e m w))) = []"
proof -
  define w' where "w' = runOnceAndUpdate cfg e m w"
  note f = faulting_cycle[OF row pg fault]
  have stamped: "map last_error_at (rows_of m w') = map (\<lambda>r. Some (now_iso e)) (rows_of m w)"
    unfolding w'_def f(1) using n by (rule f(4))
  have inv: "\<forall>r \<in> set (rows_of m w'). last_error_at r = Some (now_iso e)"
  proof
    fix r assume "r \<in> set (rows_of m w')"
    then have "last_error_at r \<in> set (map last_error_at (rows_of m w'))" by simp
    then show "last_error_at r = Some (now_iso e)" unfolding stamped by auto
  qed
  have "rows_of m w \<noteq> []"
    using row by (rule rows_nonempty)
  then have "rows_of m w' \<noteq> []"
    using stamped by (metis map_is_Nil_conv)
  then have tim: "rows_of m w' = [] \<longrightarrow> timers w' m = None"
    by simp
  have "(\<forall>r \<in> set (rows_of m (ticks cfg es m w')). last_error_at r = Some (now_iso e))
         \<and> (rows_of m (ticks cfg es m w') = [] \<longrightarrow> timers (ticks cfg es m w') m = None)"
    using window_ticks[OF inv tim soon] nopub by (simp add: w'_def)
  then have "runOnceAndUpdate cfg e2 m (ticks cfg es m w') = ticks cfg es m w'"
    using window_fault[OF _ _ fault2(2,1)] by blast
  then show ?thesis by (simp add: w'_def)
qed

lemma transient_fault:
  assumes "DB_getByMessageId m (db w) = Some job" and "pages w m = Some pg"
    and "scrapeOrderPage e = Inl x"
  shows "let w' = runOnceAndUpdate cfg e m w in
           ((attempt0 e = Thrown x \<and> \<not> isDetachErr x)
            \<or> (\<exists>x0. attempt0 e = Thrown x0 \<and> isDetachErr x0 \<and> attempt1 e = Thrown x))
           \<and> timers w' = timers w \<and> pages w' = pages w \<and> states w' = states w
           \<and> map message_id (db w') = map message_id (db w)
           \<and> new_events w w' =
               (if notifies e job x
                then (case requester_user_id job of
                        None \<Rightarrow> []
                      | Some u \<Rightarrow> if u = [] then [] else [DirectMessage u (ScrapeError x)])
                else [])
           \<and> (\<not> notifies e job x \<longrightarrow> w' = w)
           \<and> (notifies e job x \<longrightarrow>
                map last_error_at (rows_of m w') = map (\<lambda>r. Some (now_iso e)) (rows_of m w)
                \<and> ((\<forall>e' \<in> set es. date_now e' - now_iso e < 5 * 60000)
                    \<and> published_payloads (new_events w' (ticks cfg es m w')) = []
                    \<and> scrapeOrderPage e2 = Inl x2 \<and> date_now e2 - now_iso e < 5 * 60000
                    \<longrightarrow> new_events (ticks cfg es m w')
                          (runOnceAndUpdate cfg e2 m (ticks cfg es m w')) = []))"
proof -
  note f = faulting_cycle[OF assms]
  have window: "new_events (ticks cfg es m (runOnceAndUpdate cfg e m w))
           (runOnceAndUpdate cfg e2 m (ticks cfg es m (runOnceAndUpdate cfg e m w))) = []"
    if "notifies e job x" "\<forall>e' \<in> set es. date_now e' - now_iso e < 5 * 60000"
      "published_payloads
         (new_events (runOnceAndUpdate cfg e m w)
            (ticks cfg es m (runOnceAndUpdate cfg e m w))) = []"
      "scrapeOrderPage e2 = Inl x2" "date_now e2 - now_iso e < 5 * 60000"
    using silent_window[OF assms that] .
  show ?thesis
    unfolding Let_def
    using scrape_fault_origin[OF assms(3)] f(2,3,4,6) window
    by (simp add: f(1))
qed

text \<open>
  C5, amended. A fault of the fetch reaches the cycle either at once, when it is not a
  detached-frame fault, or after exactly one retry, when the first pass threw a
  detached-frame fault and the second pass threw too. Whatever the fault, the job is
  not terminated: the timers, the pages and the states are as they were and the rows keep
  their ids. The requester is told exactly when the fault is not a detached-frame fault
  and the stored error time is absent or at least five minutes old; otherwise the cycle
  changes nothing. When the requester is told, the error time is stamped, and after any
  run of cycles that publish nothing, each less than five minutes after the stamp, a
  cycle whose fetch faults less than five minutes after the stamp tells nobody and
  changes nothing.
\<close>

theorem C5_transient_fault:
  assumes "DB_getByMessageId m (db w) = Some job" and "pages w m = Some pg"
    and "scrapeOrderPage e = Inl x"
  shows "let w' = runOnceAndUpdate cfg e m w in
           ((attempt0 e = Thrown x \<and> \<not> isDetachErr x)
            \<or> (\<exists>x0. attempt0 e = Thrown x0 \<and> isDetachErr x0 \<and> attempt1 e = Thrown x))
           \<and> timers w' = timers w \<and> pages w' = pages w \<and> states w' = states w
           \<and> map message_id (db w') = map message_id (db w)
           \<and> new_events w w' =
               (if notifies e job x
                then (case requester_user_id job of
                        None \<Rightarrow> []
                      | Some u \<Rightarrow> if u = [] then [] else [DirectMessage u (ScrapeError x)])
                else [])
           \<and> (\<not> notifies e job x \<longrightarrow> w' = w)
           \<and> (notifies e job x \<longrightarrow>
                map last_error_at (rows_of m w') = map (\<lambda>r. Some (now_iso e)) (rows_of m w)
                \<and> ((\<forall>e' \<in> set es. date_now e' - now_iso e < 5 * 60000)
                    \<and> published_payloads (new_events w' (ticks cfg es m w')) = []
                    \<and> scrapeOrderPage e2 = Inl x2 \<and> date_now e2 - now_iso e < 5 * 60000
                    \<longrightarrow> new_events (ticks cfg es m w')
                          (runOnceAndUpdate cfg e2 m (ticks cfg es m w')) = []))"
  using assms by (rule transient_fault)

subsection \<open>Coupling of store and runtime\<close>










lemma job_present_timers [simp]: "job_present m (w\<lparr>timers := t\<rparr>) = job_present m w"
  by (simp add: job_present_def)

lemma job_absent_timers [simp]: "job_absent m (w\<lparr>timers := t\<rparr>) = job_absent m w"
  by (simp add: job_absent_def)


subsection \<open>The fingerprint carries the date of the embed\<close>

lemma stringify_embed_split:
  "\<exists>pre post. \<forall>t. stringify (embed_toJSON (e\<lparr>embed_timestamp := t\<rparr>)) = pre @ json_quote t @ post"
  apply (rule exI[of _ "''{'' @ join '','' (stringify_members
            ([(''color'', JNum (embed_color e)), (''title'', JStr (embed_title e))]
             @ opt_member ''url'' (map_option JStr (embed_url e))
             @ [(''fields'', JArr (map field_toJSON (embed_fields e))),
                (''footer'', JObj [(''text'', JStr (embed_footer e))])])) @ '','' @ json_quote ''timestamp'' @ '':''"])
  apply (rule exI[of _ "concat (map (\<lambda>x. '','' @ x) (stringify_members (opt_member ''thumbnail''
               (map_option (\<lambda>u. JObj [(''url'', JStr u)]) (embed_thumbnail e))))) @ ''}''"])
  apply (simp add: embed_toJSON_def join_def opt_member_def split: option.splits)
  done

lemma hash_split:
  "\<exists>pre post. \<forall>t. hashPayload \<lparr>content = c, embeds = [e\<lparr>embed_timestamp := t\<rparr>], components = cs\<rparr>
                      = pre @ json_quote t @ post"
proof -
  obtain pre post where
    e: "\<And>t. stringify (embed_toJSON (e\<lparr>embed_timestamp := t\<rparr>)) = pre @ json_quote t @ post"
    using stringify_embed_split[of e] by blast
  show ?thesis
    apply (rule exI[of _ "''{'' @ json_quote ''content'' @ '':'' @ json_quote c @ '','' @ json_quote ''embeds'' @ '':['' @ pre"])
    apply (rule exI[of _ "post @ '']'' @ '','' @ json_quote ''components'' @ '':'' @ stringify (JArr (map row_toJSON cs)) @ ''}''"])
    apply (simp add: hashPayload_def payload_toJSON_def join_def e)
    done
qed

lemma cycle_payload_date:
  "cycle_payload cfg d job icon t del =
     \<lparr>content = [],
      embeds = [(if del then buildDeliveredEmbed cfg d (Some (url job)) icon []
                 else buildActiveEmbed cfg d (Some (url job)) icon [])\<lparr>embed_timestamp := t\<rparr>],
      components = [linkRow (Some (url job)) del]\<rparr>"
  by (simp add: cycle_payload_def buildDeliveredEmbed_def buildActiveEmbed_def Let_def)

lemma hex_digit_inj:
  "hex_digit a0 a1 a2 a3 = hex_digit b0 b1 b2 b3 \<Longrightarrow> a0 = b0 \<and> a1 = b1 \<and> a2 = b2 \<and> a3 = b3"
  by (cases a0; cases a1; cases a2; cases a3; cases b0; cases b1; cases b2; cases b3)
     (simp_all add: hex_digit_def)

lemma hex2_inj:
  "is_control c \<Longrightarrow> is_control c' \<Longrightarrow> hex2 c = hex2 c' \<Longrightarrow> c = c'"
  by (cases c; cases c') (auto simp: hex2_def is_control_def dest!: hex_digit_inj)

lemma hex_digit_not_special:
  "hex_digit a0 a1 a2 a3 \<noteq> CHR 0x22" "hex_digit a0 a1 a2 a3 \<noteq> CHR 0x5C"
  by (cases a0; cases a1; cases a2; cases a3; simp add: hex_digit_def)+

lemma hex2_append:
  "hex2 c @ r = hex2 c' @ r' \<Longrightarrow> hex2 c = hex2 c' \<and> r = r'"
  by (cases c; cases c') (simp add: hex2_def)

lemma json_escape_inj:
  "json_escape c @ r = json_escape c' @ r' \<Longrightarrow> c = c' \<and> r = r'"
  by (auto simp: json_escape_def split: if_splits dest!: hex2_append dest: hex2_inj)

lemma json_escape_nonempty [simp]: "json_escape c \<noteq> []"
  by (simp add: json_escape_def)

lemma escape_all_inj:
  "concat (map json_escape s) @ [CHR 0x22] @ r = concat (map json_escape s') @ [CHR 0x22] @ r'
   \<Longrightarrow> s = s'"
proof (induction s arbitrary: s')
  case Nil
  then show ?case
    by (cases s') (auto simp: json_escape_def split: if_splits)
next
  case (Cons c s)
  show ?case
  proof (cases s')
    case Nil
    then show ?thesis using Cons.prems
      by (auto simp: json_escape_def split: if_splits)
  next
    case (Cons c' s'')
    then have "json_escape c @ (concat (map json_escape s) @ [CHR 0x22] @ r)
             = json_escape c' @ (concat (map json_escape s'') @ [CHR 0x22] @ r')"
      using Cons.prems by simp
    then have "c = c'" "concat (map json_escape s) @ [CHR 0x22] @ r
                        = concat (map json_escape s'') @ [CHR 0x22] @ r'"
      using json_escape_inj by blast+
    then show ?thesis using Cons.IH Cons by simp
  qed
qed

lemma json_quote_inj: "json_quote s @ r = json_quote s' @ r' \<Longrightarrow> s = s'"
  using escape_all_inj[of s r s' r'] by (simp add: json_quote_def)

lemma hash_differs:
  assumes "t1 \<noteq> t2"
  shows "hashPayload (cycle_payload cfg d job icon t1 del)
         \<noteq> hashPayload (cycle_payload cfg d job icon t2 del)"
proof -
  obtain pre post where
    "\<And>t. hashPayload (cycle_payload cfg d job icon t del) = pre @ json_quote t @ post"
    unfolding cycle_payload_date using hash_split by metis
  then show ?thesis using assms json_quote_inj[of t1 post t2 post] by auto
qed

subsection \<open>An ordinary cycle, in full\<close>

lemma phase_ping_unassigned:
  "\<not> truthy (assigneeUserId st) \<Longrightarrow> phase_ping e job st ph d w = Done w"
  by (auto simp: phase_ping_def truthy_def split: option.splits)

lemma latch_assignee [simp]: "assigneeUserId (fst (name_latch st d)) = assigneeUserId st"
  by (simp add: name_latch_def Let_def)

lemma latch_idem:
  "name_latch ((fst (name_latch st d))\<lparr>lastPhase := ph\<rparr>) d
     = ((fst (name_latch st d))\<lparr>lastPhase := ph\<rparr>, snd (name_latch st d))"
  by (auto simp: name_latch_def Let_def)

lemma cycle_phase_idem: "cycle_phase (st'\<lparr>lastPhase := cycle_phase st d\<rparr>) d = cycle_phase st d"
  by (auto simp: cycle_phase_def split: option.splits)

lemma cycle_payload_url:
  "url job' = url job \<Longrightarrow> cycle_payload cfg d job' icon t del = cycle_payload cfg d job icon t del"
  by (simp add: cycle_payload_def)

lemma store_back_twice:
  "states w m = Some st \<Longrightarrow>
   store_back m st2 (store_back m st1 w) = w\<lparr>states := (states w)(m \<mapsto> st2)\<rparr>"
  by (simp add: store_back_def)

text \<open>
  A cycle on a snapshot that is not delivered, for a job without notifier, when the
  channel and the guild answer: the state is stored, and the publish step decides the rest.
\<close>

lemma finalize_unassigned:
  "\<not> truthy (assigneeUserId st) \<Longrightarrow>
   finalize e m job pg st w = teardown m (message_id job) pg w"
  by (auto simp: finalize_def truthy_def split: option.splits)

lemma unassigned_cycle:
  assumes row: "DB_getByMessageId m (db w) = Some job" and pg: "pages w m = Some pg"
    and st: "states w m = Some st" and un: "\<not> truthy (assigneeUserId st)"
    and sc: "scrapeOrderPage e = Inr (Snapshot d)" and icon: "guild e = Inr icon"
    and build: "builders e = None"
  shows "runOnceAndUpdate cfg e m w =
           (case publish_on_change e job ((fst (name_latch st d))\<lparr>lastPhase := cycle_phase st d\<rparr>)
                   (cycle_payload cfg (snd (name_latch st d)) job icon (embed_date e)
                      (deliveredNow d (cycle_phase st d)))
                   (w\<lparr>states := (states w)(m \<mapsto> (fst (name_latch st d))\<lparr>lastPhase := cycle_phase st d\<rparr>)\<rparr>) of
              Raised x w'' \<Rightarrow> caught x w''
            | Done w3 \<Rightarrow>
                if deliveredNow d (cycle_phase st d) then teardown m m pg w3
                else w3\<lparr>states := (states w3)(m \<mapsto> (fst (name_latch st d))\<lparr>lastPhase := cycle_phase st d\<rparr>)\<rparr>)"
  using assms get_message_id[OF row]
  by (simp add: runOnceAndUpdate_def on_snapshot_def Let_def phase_ping_unassigned
        finalize_unassigned store_back_twice[OF st] split: outcome.splits)

lemma active_cycle:
  assumes row: "DB_getByMessageId m (db w) = Some job" and pg: "pages w m = Some pg"
    and st: "states w m = Some st" and un: "\<not> truthy (assigneeUserId st)"
    and sc: "scrapeOrderPage e = Inr (Snapshot d)" and icon: "guild e = Inr icon"
    and nd: "\<not> deliveredNow d (cycle_phase st d)" and build: "builders e = None"
  shows "runOnceAndUpdate cfg e m w =
           (case publish_on_change e job ((fst (name_latch st d))\<lparr>lastPhase := cycle_phase st d\<rparr>)
                   (cycle_payload cfg (snd (name_latch st d)) job icon (embed_date e) False)
                   (w\<lparr>states := (states w)(m \<mapsto> (fst (name_latch st d))\<lparr>lastPhase := cycle_phase st d\<rparr>)\<rparr>) of
              Raised x w'' \<Rightarrow> caught x w''
            | Done w3 \<Rightarrow>
                w3\<lparr>states := (states w3)(m \<mapsto> (fst (name_latch st d))\<lparr>lastPhase := cycle_phase st d\<rparr>)\<rparr>)"
  using assms get_message_id[OF row]
  by (simp add: runOnceAndUpdate_def on_snapshot_def Let_def phase_ping_unassigned
        store_back_twice[OF st] split: outcome.splits)

lemma calm_active_cycle:
  fixes cfg
  assumes row: "DB_getByMessageId m (db w) = Some job" and pg: "pages w m = Some pg"
    and st: "states w m = Some st" and un: "\<not> truthy (assigneeUserId st)"
    and sc: "scrapeOrderPage e = Inr (Snapshot d)" and icon: "guild e = Inr icon"
    and nd: "\<not> deliveredNow d (cycle_phase st d)"
    and calm: "channel e = TextChannel" "message_exists e" "edit e = EditOk" "builders e = None"
  defines "st2 \<equiv> (fst (name_latch st d))\<lparr>lastPhase := cycle_phase st d\<rparr>"
  defines "p \<equiv> cycle_payload cfg (snd (name_latch st d)) job icon (embed_date e) False"
  shows "new_events w (runOnceAndUpdate cfg e m w)
           = (if last_hash job = Some (hashPayload p) then [] else [MsgEdit m p])"
    and "\<exists>job'. DB_getByMessageId m (db (runOnceAndUpdate cfg e m w)) = Some job'
           \<and> last_hash job' = Some (hashPayload p) \<and> url job' = url job
           \<and> requester_user_id job' = requester_user_id job
           \<and> (last_hash job \<noteq> Some (hashPayload p) \<longrightarrow> last_error_at job' = None)"
    and "pages (runOnceAndUpdate cfg e m w) m = Some pg"
    and "states (runOnceAndUpdate cfg e m w) m = Some st2"
    and "timers (runOnceAndUpdate cfg e m w) = timers w"
proof -
  note mid = get_message_id[OF row]
  have run: "runOnceAndUpdate cfg e m w =
      (if last_hash job = Some (hashPayload p)
       then w\<lparr>states := (states w)(m \<mapsto> st2)\<rparr>
       else (persist job st2 (hashPayload p)
               (emit [MsgEdit m p] (w\<lparr>states := (states w)(m \<mapsto> st2)\<rparr>)))
              \<lparr>states := (states w)(m \<mapsto> st2)\<rparr>)"
    unfolding active_cycle[OF row pg st un sc icon nd calm(4)] publish_calm[OF calm(1-3)]
    using mid by (simp add: st2_def p_def)
  show "new_events w (runOnceAndUpdate cfg e m w)
           = (if last_hash job = Some (hashPayload p) then [] else [MsgEdit m p])"
    unfolding run by (simp add: new_events_def)
  show "pages (runOnceAndUpdate cfg e m w) m = Some pg"
    unfolding run using pg by simp
  show "states (runOnceAndUpdate cfg e m w) m = Some st2"
    unfolding run by simp
  show "timers (runOnceAndUpdate cfg e m w) = timers w"
    unfolding run by simp
  show "\<exists>job'. DB_getByMessageId m (db (runOnceAndUpdate cfg e m w)) = Some job'
           \<and> last_hash job' = Some (hashPayload p) \<and> url job' = url job
           \<and> requester_user_id job' = requester_user_id job
           \<and> (last_hash job \<noteq> Some (hashPayload p) \<longrightarrow> last_error_at job' = None)"
  proof (cases "last_hash job = Some (hashPayload p)")
    case True
    then show ?thesis unfolding run using row by simp
  next
    case False
    have "DB_getByMessageId m (db (runOnceAndUpdate cfg e m w)) =
            Some (job\<lparr>last_hash := Some (hashPayload p), last_phase := lastPhase st2,
                      static_name := or_else (staticName st2) None, last_error_at := None\<rparr>)"
      unfolding run using False mid
        get_update_keep[OF _ row, of "\<lambda>r. r\<lparr>last_hash := Some (hashPayload p),
           last_phase := lastPhase st2, static_name := or_else (staticName st2) None,
           last_error_at := None\<rparr>"]
      by simp
    then show ?thesis by simp
  qed
qed

text \<open>
  Two cycles in a row on the same snapshot: the second builds the payload of the first
  with its own date in it, so its fingerprint is not the stored one, and it publishes.
\<close>

lemma republished:
  assumes row: "DB_getByMessageId m (db w) = Some job" and pg: "pages w m = Some pg"
    and st: "states w m = Some st" and un: "\<not> truthy (assigneeUserId st)"
    and nd: "\<not> deliveredNow d (cycle_phase st d)"
    and e1: "scrapeOrderPage e1 = Inr (Snapshot d)" "guild e1 = Inr icon"
      "channel e1 = TextChannel" "message_exists e1" "edit e1 = EditOk" "builders e1 = None"
    and e2: "scrapeOrderPage e2 = Inr (Snapshot d)" "guild e2 = Inr icon"
      "channel e2 = TextChannel" "message_exists e2" "edit e2 = EditOk" "builders e2 = None"
    and dates: "embed_date e2 \<noteq> embed_date e1"
  shows "new_events (runOnceAndUpdate cfg e1 m w)
           (runOnceAndUpdate cfg e2 m (runOnceAndUpdate cfg e1 m w))
         = [MsgEdit m (cycle_payload cfg (snd (name_latch st d)) job icon (embed_date e2) False)]"
proof -
  define w1 where "w1 = runOnceAndUpdate cfg e1 m w"
  define st2 where "st2 = (fst (name_latch st d))\<lparr>lastPhase := cycle_phase st d\<rparr>"
  define p1 where "p1 = cycle_payload cfg (snd (name_latch st d)) job icon (embed_date e1) False"
  define p2 where "p2 = cycle_payload cfg (snd (name_latch st d)) job icon (embed_date e2) False"
  note first = calm_active_cycle[OF row pg st un e1(1,2) nd e1(3-6), of cfg]
  obtain job' where job': "DB_getByMessageId m (db w1) = Some job'"
    "last_hash job' = Some (hashPayload p1)" "url job' = url job"
    using first(2) by (auto simp: w1_def p1_def)
  have pg1: "pages w1 m = Some pg" and st1: "states w1 m = Some st2"
    using first(3,4) by (simp_all add: w1_def st2_def)
  have un2: "\<not> truthy (assigneeUserId st2)"
    using un by (simp add: st2_def)
  have nd2: "\<not> deliveredNow d (cycle_phase st2 d)"
    using nd by (simp add: st2_def cycle_phase_idem)
  have p2': "cycle_payload cfg (snd (name_latch st2 d)) job' icon (embed_date e2) False = p2"
    by (simp add: st2_def latch_idem p2_def cycle_payload_url[OF job'(3)])
  have "hashPayload p2 \<noteq> hashPayload p1"
    unfolding p1_def p2_def using dates by (rule hash_differs)
  then have "last_hash job' \<noteq> Some (hashPayload p2)"
    using job'(2) by simp
  then show ?thesis
    using calm_active_cycle(1)[OF job'(1) pg1 st1 un2 e2(1,2) nd2 e2(3-6), of cfg]
    unfolding p2' w1_def[symmetric] p2_def[symmetric] by simp
qed

subsection \<open>The example inputs\<close>

lemma ex_world:
  "DB_getByMessageId ''M1'' (db example_world) = Some example_job"
  "pages example_world ''M1'' = Some 1"
  "states example_world ''M1'' = Some \<lparr>lastPhase = None, staticName = None, assigneeUserId = None\<rparr>"
  "timers example_world ''M1'' = Some (Interval ''M1'')"
  by (simp_all add: example_world_def example_job_def DB_getByMessageId_def)

lemma ex_not_auth: "\<not> rx_test AUTH_RX ''https://www.ubereats.com/orders/abc''"
  by code_simp

lemma ex_scrape: "scrapeOrderPage (calm doc date) = Inr (Snapshot (scrapeFromHTML doc))"
  using ex_not_auth by (simp add: scrapeOrderPage_def scrape_pass_def calm_def)

lemma ex_calm:
  "channel (calm doc date) = TextChannel" "message_exists (calm doc date)"
  "edit (calm doc date) = EditOk" "guild (calm doc date) = Inr None"
  "embed_date (calm doc date) = date" "send (calm doc date) = Inr ''M2''"
  "builders (calm doc date) = None"
  by (simp_all add: calm_def)

lemma ex_heading:
  "name (scrapeFromHTML heading_page) = None"
  "\<not> deliveredNow (scrapeFromHTML heading_page)
       (cycle_phase \<lparr>lastPhase = None, staticName = None, assigneeUserId = None\<rparr>
          (scrapeFromHTML heading_page))"
  by code_simp+

lemma latch_nothing:
  "\<not> truthy (staticName st) \<Longrightarrow> \<not> truthy (name d) \<Longrightarrow> name_latch st d = (st, d)"
  by (simp add: name_latch_def Let_def)

text \<open>
  C1 fails on the code. The job of the example is polled twice, one minute apart, and
  the page is the same both times, so the two snapshots are equal. The second cycle
  still edits the message: the payload it fingerprints has the date of the cycle in it.
\<close>

theorem C1_unchanged_snapshot_republished:
  "scrapeOrderPage (calm heading_page minute1) = scrapeOrderPage (calm heading_page minute2)
   \<and> new_events
        (runOnceAndUpdate example_config (calm heading_page minute1) ''M1'' example_world)
        (runOnceAndUpdate example_config (calm heading_page minute2) ''M1''
           (runOnceAndUpdate example_config (calm heading_page minute1) ''M1'' example_world))
      = [MsgEdit ''M1''
           (cycle_payload example_config (scrapeFromHTML heading_page) example_job None minute2 False)]"
proof -
  have dates: "embed_date (calm heading_page minute2) \<noteq> embed_date (calm heading_page minute1)"
    by (simp add: ex_calm minute1_def minute2_def)
  have latch: "snd (name_latch \<lparr>lastPhase = None, staticName = None, assigneeUserId = None\<rparr>
                      (scrapeFromHTML heading_page)) = scrapeFromHTML heading_page"
    by (simp add: latch_nothing ex_heading(1))
  show ?thesis
    using republished[OF ex_world(1-3) _ ex_heading(2) ex_scrape ex_calm(4,1,2,3,7)
        ex_scrape ex_calm(4,1,2,3,7) dates, of example_config]
    by (simp add: ex_scrape ex_calm latch)
qed

subsection \<open>A cycle that reposts\<close>

lemma publish_lost:
  assumes "channel e = TextChannel" "\<not> message_exists e" "send e = Inr new"
    and "last_hash job \<noteq> Some (hashPayload p)"
  shows "publish_on_change e job st p w =
           Done (persist job st (hashPayload p)
                   (migrate (message_id job) new (emit [ChannelSend (channel_id job) p] w)))"
  using assms by (auto simp: publish_on_change_def safeEditOrRepost_def repost_def Let_def)

text \<open>
  A cycle of a job without notifier that finds the message gone and reposts it under a
  new id. The timer, the page and the state go to the new id; the row stays under the old
  one. When the order is not delivered the row gets the fingerprint, and a state is set
  under the old id again; when it is delivered the row is deleted and the page is closed,
  but the entries under the new id stay and the timer is not cleared. Either way every
  later firing for the old id changes nothing.
\<close>

lemma lost_message_cycle:
  fixes cfg
  assumes row: "DB_getByMessageId m (db w) = Some job" and pg: "pages w m = Some pg"
    and st: "states w m = Some st" and un: "\<not> truthy (assigneeUserId st)"
    and tm: "timers w m = Some t"
    and sc: "scrapeOrderPage e = Inr (Snapshot d)" and icon: "guild e = Inr icon"
    and build: "builders e = None"
    and lost: "channel e = TextChannel" "\<not> message_exists e" "send e = Inr new"
    and new: "new \<noteq> m"
    and changed: "last_hash job \<noteq> Some (hashPayload
                    (cycle_payload cfg (snd (name_latch st d)) job icon (embed_date e)
                       (deliveredNow d (cycle_phase st d))))"
  defines "w' \<equiv> runOnceAndUpdate cfg e m w"
  defines "st2 \<equiv> (fst (name_latch st d))\<lparr>lastPhase := cycle_phase st d\<rparr>"
  defines "p \<equiv> cycle_payload cfg (snd (name_latch st d)) job icon (embed_date e)
                 (deliveredNow d (cycle_phase st d))"
  shows "timers w' new = Some t" and "timers w' m = None"
    and "pages w' new = Some pg" and "pages w' m = None"
    and "states w' new = Some st2"
    and "rows_of new w' = rows_of new w"
    and "runOnceAndUpdate cfg e2 m w' = w'"
    and "\<not> deliveredNow d (cycle_phase st d) \<Longrightarrow>
         DB_getByMessageId m (db w')
           = Some (job\<lparr>last_hash := Some (hashPayload p), last_phase := lastPhase st2,
                       static_name := or_else (staticName st2) None, last_error_at := None\<rparr>)
         \<and> states w' m = Some st2
         \<and> new_events w w' = [ChannelSend (channel_id job) p]
         \<and> map message_id (db w') = map message_id (db w)"
    and "deliveredNow d (cycle_phase st d) \<Longrightarrow>
         rows_of m w' = [] \<and> states w' m = None
         \<and> new_events w w' = [ChannelSend (channel_id job) p, PageClosed pg]"
proof -
  note mid = get_message_id[OF row]
  define w3 where "w3 = persist job st2 (hashPayload p)
                          (migrate m new (emit [ChannelSend (channel_id job) p]
                                            (w\<lparr>states := (states w)(m \<mapsto> st2)\<rparr>)))"
  have run: "w' = (if deliveredNow d (cycle_phase st d) then teardown m m pg w3
                   else w3\<lparr>states := (states w3)(m \<mapsto> st2)\<rparr>)"
    unfolding w'_def unassigned_cycle[OF row pg st un sc icon build]
    using publish_lost[OF lost changed] mid by (simp add: st2_def p_def w3_def)
  have w3: "timers w3 = move_key m new (timers w)" "pages w3 = move_key m new (pages w)"
    "states w3 = move_key m new ((states w)(m \<mapsto> st2))"
    "log w3 = log w @ [ChannelSend (channel_id job) p]"
    "db w3 = DB_updateByMessageId m
               (\<lambda>r. r\<lparr>last_hash := Some (hashPayload p), last_phase := lastPhase st2,
                      static_name := or_else (staticName st2) None, last_error_at := None\<rparr>) (db w)"
    using mid by (simp_all add: w3_def)
  show "timers w' new = Some t" and t0: "timers w' m = None"
    unfolding run using tm new by (simp_all add: w3 move_key_def)
  show "pages w' new = Some pg" and p0: "pages w' m = None"
    unfolding run using pg new by (simp_all add: w3 move_key_def)
  show "states w' new = Some st2"
    unfolding run using new by (simp add: w3 move_key_def)
  show "rows_of new w' = rows_of new w"
    unfolding run using new
    by (simp add: rows_of_def w3 filter_update_other filter_delete_other)
  have get3: "DB_getByMessageId m (db w3)
           = Some (job\<lparr>last_hash := Some (hashPayload p), last_phase := lastPhase st2,
                       static_name := or_else (staticName st2) None, last_error_at := None\<rparr>)"
    unfolding w3 by (rule get_update_keep[OF _ row]) simp
  show active: "DB_getByMessageId m (db w')
           = Some (job\<lparr>last_hash := Some (hashPayload p), last_phase := lastPhase st2,
                       static_name := or_else (staticName st2) None, last_error_at := None\<rparr>)
         \<and> states w' m = Some st2
         \<and> new_events w w' = [ChannelSend (channel_id job) p]
         \<and> map message_id (db w') = map message_id (db w)"
    if "\<not> deliveredNow d (cycle_phase st d)"
    unfolding run using that get3 by (simp add: w3 new_events_def map_message_id_update)
  show over: "rows_of m w' = [] \<and> states w' m = None
         \<and> new_events w w' = [ChannelSend (channel_id job) p, PageClosed pg]"
    if "deliveredNow d (cycle_phase st d)"
    unfolding run using that new tm by (simp add: w3 new_events_def move_key_def)
  have same: "(timers w')(m := None) = timers w'"
    using t0 by (simp add: fun_upd_idem_iff)
  show "runOnceAndUpdate cfg e2 m w' = w'"
  proof (cases "deliveredNow d (cycle_phase st d)")
    case True
    then have "DB_getByMessageId m (db w') = None"
      using over by (simp add: get_None_iff)
    then show ?thesis using t0 same by (simp add: runOnceAndUpdate_def emit_def)
  next
    case False
    then show ?thesis using active p0 by (simp add: runOnceAndUpdate_def)
  qed
qed

lemma ex_lost:
  "scrapeOrderPage message_lost = Inr (Snapshot (scrapeFromHTML heading_page))"
  "channel message_lost = TextChannel" "\<not> message_exists message_lost"
  "send message_lost = Inr ''M2''" "guild message_lost = Inr None"
  "builders message_lost = None" "embed_date message_lost = minute1"
  using ex_not_auth
  by (simp_all add: message_lost_def calm_def scrapeOrderPage_def scrape_pass_def)

lemma ex_job:
  "last_hash example_job \<noteq> Some h" "channel_id example_job = ''C1''"
  "requester_user_id example_job = Some ''U1''" "last_error_at example_job = None"
  "last_hash example_job = None"
  by (simp_all add: example_job_def)

text \<open>
  C7 fails on the code. The message of the example job has been deleted; the cycle sends
  it again and gets the id \<open>M2\<close>. The timer, the page and the state are then filed
  under \<open>M2\<close>, but the row is still under \<open>M1\<close>, because the update that should move it
  runs with the old id as the new value, and the timer still calls the cycle with
  \<open>M1\<close>. There the cycle finds the row and no page and returns: every later firing
  changes nothing, so the job is never polled again, and nothing that is filed under
  \<open>M2\<close> is ever used.
\<close>

theorem C7_repost_orphans_the_job:
  "map message_id (db (runOnceAndUpdate example_config message_lost ''M1'' example_world))
     = [''M1'']
   \<and> timers (runOnceAndUpdate example_config message_lost ''M1'' example_world) ''M2''
       = Some (Interval ''M1'')
   \<and> timers (runOnceAndUpdate example_config message_lost ''M1'' example_world) ''M1'' = None
   \<and> pages (runOnceAndUpdate example_config message_lost ''M1'' example_world) ''M2'' = Some 1
   \<and> pages (runOnceAndUpdate example_config message_lost ''M1'' example_world) ''M1'' = None
   \<and> states (runOnceAndUpdate example_config message_lost ''M1'' example_world) ''M2'' \<noteq> None
   \<and> new_events example_world
         (runOnceAndUpdate example_config message_lost ''M1'' example_world)
       = [ChannelSend ''C1''
            (cycle_payload example_config (scrapeFromHTML heading_page) example_job None
               minute1 False)]
   \<and> fire example_config (calm heading_page minute2) (Interval ''M1'')
         (runOnceAndUpdate example_config message_lost ''M1'' example_world)
       = runOnceAndUpdate example_config message_lost ''M1'' example_world"
proof -
  have latch: "snd (name_latch \<lparr>lastPhase = None, staticName = None, assigneeUserId = None\<rparr>
                      (scrapeFromHTML heading_page)) = scrapeFromHTML heading_page"
    by (simp add: latch_nothing ex_heading(1))
  have new: "''M2'' \<noteq> ''M1''"
    by simp
  have un: "\<not> truthy (assigneeUserId \<lparr>lastPhase = None, staticName = None, assigneeUserId = None\<rparr>)"
    by simp
  note c = lost_message_cycle[OF ex_world(1-3) un ex_world(4) ex_lost(1,5,6,2,3,4) new ex_job(1),
      of example_config]
  show ?thesis
    using c(1,2,3,4,5) c(7)[of "calm heading_page minute2"] c(8)[OF ex_heading(2)] ex_heading(2)
    by (simp add: fire_def latch ex_lost(7) ex_job(2) example_world_def example_job_def)
qed

subsection \<open>The example inputs, continued\<close>

lemma ex_pages:
  "delivered (scrapeFromHTML delivered_page)"
  "name (scrapeFromHTML bob_page) = Some ''Bob''"
  "name (scrapeFromHTML almost_page) = None"
  "classifyPhase (or_else (statusLine (scrapeFromHTML hello_page))
      (Some (statusText (scrapeFromHTML hello_page)))) = None"
  "\<not> delivered (scrapeFromHTML redelivered_page)"
  "classifyPhase (or_else (statusLine (scrapeFromHTML redelivered_page))
      (Some (statusText (scrapeFromHTML redelivered_page)))) = Some DELIVERED"
  "\<not> delivered (scrapeFromHTML almost_page)"
  "classifyPhase (or_else (statusLine (scrapeFromHTML almost_page))
      (Some (statusText (scrapeFromHTML almost_page)))) = Some ALMOST_HERE"
  "name (scrapeFromHTML delivered_page) = None"
  by code_simp+

lemma ex_fault: "\<not> isDetachErr ''net::ERR_CONNECTION_RESET''"
  by code_simp

lemma ex_network_fault:
  "scrapeOrderPage network_fault = Inl ''net::ERR_CONNECTION_RESET''"
  "scrapeOrderPage network_fault_later = Inl ''net::ERR_CONNECTION_RESET''"
  "scrape_pass (attempt1 network_fault) = Inr (Snapshot (scrapeFromHTML heading_page))"
  "now_iso network_fault = 1700000000001"
  "date_now network_fault_later = 1700000060000"
  using ex_fault ex_not_auth
  by (simp_all add: network_fault_later_def network_fault_def scrapeOrderPage_def
        scrape_pass_def calm_def)



lemma world_of_Done [simp]: "world_of (Done w) = w" "\<not> raised (Done w)"
  by (simp_all add: world_of_def raised_def)



subsection \<open>A cycle that cannot fetch the guild\<close>

lemma guild_fault_cycle:
  assumes row: "DB_getByMessageId m (db w) = Some job" and pg: "pages w m = Some pg"
    and st: "states w m = Some st" and un: "\<not> truthy (assigneeUserId st)"
    and sc: "scrapeOrderPage e = Inr (Snapshot d)" and g: "guild e = Inl x"
  shows "runOnceAndUpdate cfg e m w =
           caught x (w\<lparr>states := (states w)(m \<mapsto>
                        (fst (name_latch st d))\<lparr>lastPhase := cycle_phase st d\<rparr>)\<rparr>)"
  using assms get_message_id[OF row]
  by (simp add: runOnceAndUpdate_def on_snapshot_def Let_def phase_ping_unassigned
        store_back_twice[OF st])

lemma ex_guild_fault:
  "scrapeOrderPage guild_fault = Inr (Snapshot (scrapeFromHTML bob_page))"
  "guild guild_fault = Inl ''Unknown Guild''"
  using ex_not_auth
  by (simp_all add: guild_fault_def scrapeOrderPage_def scrape_pass_def calm_def)

subsection \<open>Two faults, and a delivered order whose message is gone\<close>

lemma ex_notifies:
  "notifies network_fault example_job ''net::ERR_CONNECTION_RESET''"
  using ex_fault by (simp add: notifies_def example_job_def)

lemma ex_stamped:
  "DB_getByMessageId ''M1'' (db (runOnceAndUpdate example_config network_fault ''M1'' example_world))
     = Some (example_job\<lparr>last_error_at := Some 1700000000001\<rparr>)"
  "pages (runOnceAndUpdate example_config network_fault ''M1'' example_world) ''M1'' = Some 1"
  "states (runOnceAndUpdate example_config network_fault ''M1'' example_world) ''M1''
     = Some \<lparr>lastPhase = None, staticName = None, assigneeUserId = None\<rparr>"
  "new_events example_world (runOnceAndUpdate example_config network_fault ''M1'' example_world)
     = [DirectMessage ''U1'' (ScrapeError ''net::ERR_CONNECTION_RESET'')]"
proof -
  note f = faulting_cycle[OF ex_world(1,2) ex_network_fault(1)]
  show "DB_getByMessageId ''M1'' (db (runOnceAndUpdate example_config network_fault ''M1'' example_world))
     = Some (example_job\<lparr>last_error_at := Some 1700000000001\<rparr>)"
    unfolding f(1) using f(5)[OF ex_notifies] by (simp add: ex_network_fault(4))
  show "pages (runOnceAndUpdate example_config network_fault ''M1'' example_world) ''M1'' = Some 1"
    unfolding f(1) using ex_world(2) by simp
  show "states (runOnceAndUpdate example_config network_fault ''M1'' example_world) ''M1''
     = Some \<lparr>lastPhase = None, staticName = None, assigneeUserId = None\<rparr>"
    unfolding f(1) using ex_world(3) by simp
  show "new_events example_world (runOnceAndUpdate example_config network_fault ''M1'' example_world)
     = [DirectMessage ''U1'' (ScrapeError ''net::ERR_CONNECTION_RESET'')]"
    unfolding f(1) f(2) using ex_notifies by (simp add: ex_job(3))
qed

text \<open>
  C5 fails twice. A network fault is not retried: the first pass throws it, the loop does
  not run a second pass, and the fault reaches the cycle at once, although the second
  fetch would have loaded the page. And the requester is told twice within a minute: the
  cycle between the two faults publishes, which clears the stored error time.
\<close>

theorem C5_transient_fault_counterexample:
  "attempt0 network_fault = Thrown ''net::ERR_CONNECTION_RESET''
   \<and> scrape_pass (attempt1 network_fault) = Inr (Snapshot (scrapeFromHTML heading_page))
   \<and> scrapeOrderPage network_fault = Inl ''net::ERR_CONNECTION_RESET''
   \<and> new_events example_world
         (runOnceAndUpdate example_config network_fault ''M1'' example_world)
       = [DirectMessage ''U1'' (ScrapeError ''net::ERR_CONNECTION_RESET'')]
   \<and> date_now network_fault_later - now_iso network_fault = 59999
   \<and> new_events
         (runOnceAndUpdate example_config (calm heading_page minute1) ''M1''
            (runOnceAndUpdate example_config network_fault ''M1'' example_world))
         (runOnceAndUpdate example_config network_fault_later ''M1''
            (runOnceAndUpdate example_config (calm heading_page minute1) ''M1''
               (runOnceAndUpdate example_config network_fault ''M1'' example_world)))
       = [DirectMessage ''U1'' (ScrapeError ''net::ERR_CONNECTION_RESET'')]"
proof -
  define w1 where "w1 = runOnceAndUpdate example_config network_fault ''M1'' example_world"
  define w2 where "w2 = runOnceAndUpdate example_config (calm heading_page minute1) ''M1'' w1"
  have un: "\<not> truthy (assigneeUserId \<lparr>lastPhase = None, staticName = None, assigneeUserId = None\<rparr>)"
    by simp
  note c = calm_active_cycle[OF ex_stamped(1,2,3) un ex_scrape ex_calm(4) ex_heading(2)
             ex_calm(1,2,3,7), of example_config minute1]
  obtain job' where job': "DB_getByMessageId ''M1'' (db w2) = Some job'"
    "requester_user_id job' = Some ''U1''" "last_error_at job' = None"
    using c(2) by (auto simp: w1_def w2_def example_job_def)
  have pg2: "pages w2 ''M1'' = Some 1"
    using c(3) by (simp add: w1_def w2_def)
  note f = faulting_cycle[OF job'(1) pg2 ex_network_fault(2)]
  have "notifies network_fault_later job' ''net::ERR_CONNECTION_RESET''"
    using ex_fault job'(3) by (simp add: notifies_def)
  then have "new_events w2 (runOnceAndUpdate example_config network_fault_later ''M1'' w2)
               = [DirectMessage ''U1'' (ScrapeError ''net::ERR_CONNECTION_RESET'')]"
    unfolding f(1) f(2) by (simp add: job'(2))
  then show ?thesis
    using ex_network_fault ex_stamped(4)
    by (simp add: w1_def w2_def network_fault_def)
qed

text \<open>
  An instance of C5 as amended: the example job and a network fault; the next cycle cannot
  fetch the guild and publishes nothing; a second network fault a minute after the first
  tells nobody.
\<close>

theorem C5_transient_fault_witness:
  "new_events example_world (runOnceAndUpdate example_config network_fault ''M1'' example_world)
     = [DirectMessage ''U1'' (ScrapeError ''net::ERR_CONNECTION_RESET'')]
   \<and> timers (runOnceAndUpdate example_config network_fault ''M1'' example_world)
       = timers example_world
   \<and> pages (runOnceAndUpdate example_config network_fault ''M1'' example_world)
       = pages example_world
   \<and> states (runOnceAndUpdate example_config network_fault ''M1'' example_world)
       = states example_world
   \<and> new_events
        (ticks example_config [guild_fault] ''M1''
           (runOnceAndUpdate example_config network_fault ''M1'' example_world))
        (runOnceAndUpdate example_config network_fault_later ''M1''
           (ticks example_config [guild_fault] ''M1''
              (runOnceAndUpdate example_config network_fault ''M1'' example_world))) = []"
proof -
  define w1 where "w1 = runOnceAndUpdate example_config network_fault ''M1'' example_world"
  have un: "\<not> truthy (assigneeUserId \<lparr>lastPhase = None, staticName = None, assigneeUserId = None\<rparr>)"
    by simp
  have "published_payloads (new_events w1 (runOnceAndUpdate example_config guild_fault ''M1'' w1)) = []"
    unfolding w1_def guild_fault_cycle[OF ex_stamped(1,2,3) un ex_guild_fault]
    by (simp add: new_events_def)
  then have nopub: "published_payloads (new_events w1 (ticks example_config [guild_fault] ''M1'' w1)) = []"
    by simp
  have soon: "\<forall>e' \<in> set [guild_fault]. date_now e' - now_iso network_fault < 5 * 60000"
    by (simp add: guild_fault_def calm_def network_fault_def)
  have later: "date_now network_fault_later - now_iso network_fault < 5 * 60000"
    by (simp add: ex_network_fault)
  show ?thesis
    using C5_transient_fault[OF ex_world(1,2) ex_network_fault(1), of example_config
            "[guild_fault]" network_fault_later "''net::ERR_CONNECTION_RESET''"]
      ex_notifies ex_job(3) ex_network_fault(2) nopub soon later
    by (simp add: Let_def w1_def)
qed




text \<open>
  An instance of C8: the phase HEADING is known and the headline "Hello" has no phase.
\<close>

theorem C8_phase_retained_witness:
  "(case states (runOnceAndUpdate example_config (calm hello_page minute1) ''M1'' example_world_heading) ''M1'' of
      None \<Rightarrow> True
    | Some st' \<Rightarrow> lastPhase st' = Some HEADING)
   \<and> phase_known_or_over ''M1''
       (ticks example_config [calm hello_page minute1, calm hello_page minute2] ''M1''
          example_world_heading)"
proof -
  have st: "states example_world_heading ''M1''
              = Some \<lparr>lastPhase = Some HEADING, staticName = None, assigneeUserId = None\<rparr>"
    by (simp add: example_world_heading_def)
  show ?thesis
    using C8_phase_retained[OF st, of "calm hello_page minute1" "scrapeFromHTML hello_page"
            example_config "[calm hello_page minute1, calm hello_page minute2]"]
      ex_scrape[of hello_page minute1] ex_pages(4)
    by (simp split: option.splits)
qed

subsection \<open>Parts of a text\<close>

lemma part_of_iff: "part_of g s \<longleftrightarrow> (\<exists>a b. s = a @ g @ b)"
proof (induction s)
  case Nil
  then show ?case by auto
next
  case (Cons c cs)
  show ?case
  proof
    assume "part_of g (c # cs)"
    then consider "take (length g) (c # cs) = g" | "part_of g cs" by auto
    then show "\<exists>a b. c # cs = a @ g @ b"
    proof cases
      case 1
      then have "c # cs = [] @ g @ drop (length g) (c # cs)"
        by (metis append_Nil append_take_drop_id)
      then show ?thesis by blast
    next
      case 2
      then obtain a b where "cs = a @ g @ b" using Cons.IH by blast
      then have "c # cs = (c # a) @ g @ b" by simp
      then show ?thesis by blast
    qed
  next
    assume "\<exists>a b. c # cs = a @ g @ b"
    then obtain a b where ab: "c # cs = a @ g @ b" by blast
    show "part_of g (c # cs)"
    proof (cases a)
      case Nil
      then have "take (length g) (c # cs) = g" using ab by simp
      then show ?thesis by simp
    next
      case (Cons x xs)
      then have "cs = xs @ g @ b" using ab by simp
      then have "part_of g cs" using Cons.IH by blast
      then show ?thesis by simp
    qed
  qed
qed



lemma part_of_append: "part_of g s \<Longrightarrow> part_of g (a @ s @ b)"
  unfolding part_of_iff by (metis append.assoc)


lemma part_of_prefix: "part_of g s \<Longrightarrow> part_of g (s @ b)"
  using part_of_append[of g s "[]" b] by simp





subsection \<open>What a match is made of\<close>




subsection \<open>Groups that every match sets\<close>






subsection \<open>A match at the start\<close>




subsection \<open>Extraction\<close>


















lemma ex_thanks:
  "delivered (scrapeFromHTML thanks_page)"
  "statusLine (scrapeFromHTML thanks_page) = Some ''Heading your way''"
  "statusText (scrapeFromHTML thanks_page) = ''Heading your way''"
  "\<not> rx_test DELIVERED_FLAG_RX ''Heading your way''"
  "rx_test ENJOY_RX (page_text thanks_page)"
  "rx_test THANKS_RX (page_text thanks_page)"
  "status_widget thanks_page \<noteq> []"
  by code_simp+

lemma delivered_flag:
  "delivered (scrapeFromHTML doc)
     = (rx_test DELIVERED_FLAG_RX (statusText (scrapeFromHTML doc))
        \<or> (rx_test ENJOY_RX (page_text doc) \<and> rx_test THANKS_RX (page_text doc))
        \<or> 0 < length (select (testid ''back-to-restaurants-primary-action'') doc))"
  by (auto simp add: scrapeFromHTML_def Let_def)




subsection \<open>The name, the address and the store\<close>






subsection \<open>The unit and the delivery type\<close>






subsection \<open>The cart\<close>










text \<open>
  C9. The delivered flag of a snapshot is true exactly when the status text matches the
  delivered pattern, or the text of the page has both "Enjoy your order!" and "Thanks for
  using Uber Eats.", or an element is the back-to-restaurants action.
\<close>

theorem C9_delivered_flag:
  "delivered (scrapeFromHTML doc)
     = (rx_test DELIVERED_FLAG_RX (statusText (scrapeFromHTML doc))
        \<or> (rx_test ENJOY_RX (page_text doc) \<and> rx_test THANKS_RX (page_text doc))
        \<or> 0 < length (select (testid ''back-to-restaurants-primary-action'') doc))"
  by (rule delivered_flag)

text \<open>
  An instance of C9: the headline is "Heading your way", which the delivered pattern does
  not match; the page has both phrases, and the flag is true.
\<close>

theorem C9_delivered_flag_witness:
  "statusText (scrapeFromHTML thanks_page) = ''Heading your way''
   \<and> \<not> rx_test DELIVERED_FLAG_RX ''Heading your way''
   \<and> delivered (scrapeFromHTML thanks_page)"
  using C9_delivered_flag[of thanks_page] ex_thanks(3,4,5,6) by blast


end
